theory Spec2Isabelle
  imports Main "HOL-Library.AList" "HOL-Library.Sublist"
begin

section \<open>Strings and the string methods the sources call\<close>

text \<open>
  Paths, URIs and import texts are \<^typ>\<open>string\<close>s. \<open>String.prototype.startsWith\<close> is
  \<^const>\<open>prefix\<close>. \<open>String.prototype.replace\<close> with a string pattern replaces the first
  occurrence of the pattern; the replacement text is a template in which \<open>$$\<close>, \<open>$&\<close>,
  \<open>$`\<close> and \<open>$'\<close> are expanded (with a string pattern there are no capture groups, so
  every other \<open>$\<close> stands for itself).
\<close>

definition slash :: char where
  "slash = CHR ''/''"

definition dollar :: char where
  "dollar = CHR ''$''"

fun getSubstitution :: "string \<Rightarrow> string \<Rightarrow> string \<Rightarrow> string \<Rightarrow> string" where
  "getSubstitution matched preceding following [] = []"
| "getSubstitution matched preceding following [c] = [c]"
| "getSubstitution matched preceding following (c # d # r) =
     (if c = dollar \<and> d = dollar then dollar # getSubstitution matched preceding following r
      else if c = dollar \<and> d = CHR ''&'' then matched @ getSubstitution matched preceding following r
      else if c = dollar \<and> d = CHR 0x60 then preceding @ getSubstitution matched preceding following r
      else if c = dollar \<and> d = CHR 0x27 then following @ getSubstitution matched preceding following r
      else c # getSubstitution matched preceding following (d # r))"

fun splitAtFirst :: "string \<Rightarrow> string \<Rightarrow> (string \<times> string) option" where
  "splitAtFirst pat [] = (if pat = [] then Some ([], []) else None)"
| "splitAtFirst pat (c # cs) =
     (if prefix pat (c # cs) then Some ([], drop (length pat) (c # cs))
      else map_option (\<lambda>(b, a). (c # b, a)) (splitAtFirst pat cs))"

definition js_replace :: "string \<Rightarrow> string \<Rightarrow> string \<Rightarrow> string" where
  "js_replace s pat rep =
     (case splitAtFirst pat s of
        None \<Rightarrow> s
      | Some (b, a) \<Rightarrow> b @ getSubstitution pat b a rep @ a)"

text \<open>\<open>s.replace(/\*$/, '')\<close>: one trailing asterisk is dropped.\<close>

definition stripWildcard :: "string \<Rightarrow> string" where
  "stripWildcard s = (if s \<noteq> [] \<and> last s = CHR ''*'' then butlast s else s)"

text \<open>\<open>s.replace(/(\.module)?\.scss/, '')\<close>: the leftmost match is removed.\<close>

fun stripScssExt :: "string \<Rightarrow> string" where
  "stripScssExt [] = []"
| "stripScssExt (c # cs) =
     (if prefix ''.module.scss'' (c # cs) then drop 12 (c # cs)
      else if prefix ''.scss'' (c # cs) then drop 5 (c # cs)
      else c # stripScssExt cs)"

text \<open>
  A \<^typ>\<open>string\<close> holds the UTF-8 bytes of a text. \<open>String.prototype.length\<close> counts
  UTF-16 code units: one for every character of up to three bytes, two for a character
  of four bytes. Bytes \<open>0x80\<close> to \<open>0xBF\<close> continue a character, bytes from \<open>0xF0\<close> on
  start one of four bytes.
\<close>

definition jsLength :: "string \<Rightarrow> nat" where
  "jsLength s =
     length (filter (\<lambda>c. \<not> (128 \<le> (of_char c :: nat) \<and> (of_char c :: nat) < 192)) s)
     + length (filter (\<lambda>c. 240 \<le> (of_char c :: nat)) s)"

section \<open>Node's \<open>path\<close> module (POSIX flavour)\<close>

text \<open>
  The sources call \<open>path.resolve\<close>, \<open>path.dirname\<close>, \<open>path.relative\<close>,
  \<open>path.isAbsolute\<close>, \<open>path.normalize\<close> and \<open>path.join\<close>. They are modelled on path
  segments. \<open>process.cwd()\<close>, which \<open>resolve\<close> and \<open>relative\<close> consult for relative
  arguments, is the explicit argument \<open>cwd\<close>, an absolute path.
\<close>

fun splitSlash :: "string \<Rightarrow> string list" where
  "splitSlash [] = [[]]"
| "splitSlash (c # cs) =
     (if c = slash then [] # splitSlash cs
      else (case splitSlash cs of
              [] \<Rightarrow> [[c]]
            | s # ss \<Rightarrow> (c # s) # ss))"

fun joinSlash :: "string list \<Rightarrow> string" where
  "joinSlash [] = []"
| "joinSlash [s] = s"
| "joinSlash (s # t # ss) = s @ slash # joinSlash (t # ss)"

definition normalizeStep :: "bool \<Rightarrow> string list \<Rightarrow> string \<Rightarrow> string list" where
  "normalizeStep allowAboveRoot res seg =
     (if seg = [] \<or> seg = ''.'' then res
      else if seg = ''..'' then
        (if res \<noteq> [] \<and> last res \<noteq> ''..'' then butlast res
         else if allowAboveRoot then res @ [''..'']
         else res)
      else res @ [seg])"

definition normalizeString :: "string \<Rightarrow> bool \<Rightarrow> string" where
  "normalizeString p allowAboveRoot =
     joinSlash (foldl (normalizeStep allowAboveRoot) [] (splitSlash p))"

definition isAbsolute :: "string \<Rightarrow> bool" where
  "isAbsolute p = (p \<noteq> [] \<and> hd p = slash)"

definition normalize :: "string \<Rightarrow> string" where
  "normalize p =
     (if p = [] then ''.''
      else
        let isAbs = (hd p = slash);
            trailingSeparator = (last p = slash);
            q = normalizeString p (\<not> isAbs)
        in if q = [] then (if isAbs then ''/'' else if trailingSeparator then ''./'' else ''.'')
           else (if isAbs then [slash] else []) @ q @ (if trailingSeparator then [slash] else []))"

definition join :: "string list \<Rightarrow> string" where
  "join args =
     (case filter (\<lambda>a. a \<noteq> []) args of
        [] \<Rightarrow> ''.''
      | a # as \<Rightarrow> normalize (joinSlash (a # as)))"

text \<open>
  \<open>resolve\<close> walks its arguments from the right, the working directory last, and stops at
  the first absolute one.
\<close>

fun resolveWalk :: "string list \<Rightarrow> string \<Rightarrow> string \<times> bool" where
  "resolveWalk [] acc = (acc, False)"
| "resolveWalk (p # ps) acc =
     (if p = [] then resolveWalk ps acc
      else if hd p = slash then (p @ slash # acc, True)
      else resolveWalk ps (p @ slash # acc))"

definition resolve :: "string \<Rightarrow> string list \<Rightarrow> string" where
  "resolve cwd args =
     (case resolveWalk (rev args @ [cwd]) [] of
        (resolvedPath, resolvedAbsolute) \<Rightarrow>
          let q = normalizeString resolvedPath (\<not> resolvedAbsolute)
          in if resolvedAbsolute then slash # q
             else if q \<noteq> [] then q else ''.'')"

definition segments :: "string \<Rightarrow> string list" where
  "segments p = filter (\<lambda>s. s \<noteq> []) (splitSlash p)"

definition relative :: "string \<Rightarrow> string \<Rightarrow> string \<Rightarrow> string" where
  "relative cwd from to =
     (if from = to then []
      else
        let f = resolve cwd [from];
            t = resolve cwd [to]
        in if f = t then []
           else
             let sf = segments f;
                 st = segments t;
                 common = length (longest_common_prefix sf st)
             in joinSlash (replicate (length sf - common) ''..'' @ drop common st))"

text \<open>
  \<open>dirname\<close>: trailing slashes are skipped, then the text before the last slash that
  follows the first character is kept.
\<close>

definition dirname :: "string \<Rightarrow> string" where
  "dirname p =
     (if p = [] then ''.''
      else
        let hasRoot = (hd p = slash);
            r = dropWhile (\<lambda>c. c \<noteq> slash) (dropWhile (\<lambda>c. c = slash) (rev (tl p)));
            endIdx = length r
        in if r = [] then (if hasRoot then ''/'' else ''.'')
           else if hasRoot \<and> endIdx = 1 then ''//''
           else take endIdx p)"

section \<open>Symbol tables\<close>

text \<open>
  The interfaces of \<open>types/symbols.ts\<close>. An optional field (\<open>position?\<close>, \<open>mixin?\<close>,
  \<open>document?\<close>, \<open>filepath?\<close>) is an \<^typ>\<open>'a option\<close>, \<open>None\<close> standing for \<open>undefined\<close>.
  \<open>IFunction\<close> is \<open>IMixin\<close>. \<open>IDocumentSymbols\<close> extends \<open>ISymbols\<close>.
\<close>

record Position =
  pos_line :: nat
  pos_character :: nat

record IVariable =
  var_position :: "Position option"
  var_mixin :: "string option"
  var_name :: string
  var_value :: "string option"
  var_offset :: nat

record IMixin =
  mixin_position :: "Position option"
  mixin_name :: string
  mixin_parameters :: "IVariable list"
  mixin_offset :: nat

record IImport =
  import_reference :: "bool option"
  import_filepath :: string
  import_dynamic :: bool
  import_css :: bool

record ISymbols =
  sym_variables :: "IVariable list"
  sym_mixins :: "IMixin list"
  sym_functions :: "IMixin list"
  sym_imports :: "IImport list"

record IDocumentSymbols = ISymbols +
  sym_document :: "string option"
  sym_filepath :: "string option"

record IPathShorthand =
  sh_alias :: string
  sh_paths :: "string list"

text \<open>\<open>ITsConfig.paths\<close> is optional in the source: \<open>None\<close> is \<open>undefined\<close>.\<close>

record ITsConfig =
  ts_filepath :: string
  ts_paths :: "IPathShorthand list option"

record TextDocument =
  doc_uri :: string
  doc_text :: string

section \<open>Syntax nodes\<close>

text \<open>
  Of the node types of \<open>types/nodes.ts\<close> the sources test nine by name; every other one is
  \<open>OtherNodeType\<close> with its number. A node carries its type, name, offset, length and
  parent (\<open>None\<close> at the root, where \<open>getParent()\<close> gives \<open>null\<close>).
\<close>

datatype NodeType =
    Identifier | StringLiteral | Function | MixinReference | VariableName
  | VariableDeclaration | Import | FunctionParameter | Use | OtherNodeType nat

datatype INode =
  Node (node_type: NodeType) (node_name: string) (node_offset: nat) (node_length: nat)
       (node_parent: "INode option")

section \<open>Settings\<close>

record ISettings =
  scannerDepth :: nat
  scannerExclude :: "string list"
  scanImportedFiles :: bool
  implicitlyLabel :: "string option"
  showErrors :: bool
  suggestVariables :: bool
  suggestMixins :: bool
  suggestFunctions :: bool
  suggestFunctionsInStringContextAfterSymbols :: string

section \<open>The collaborators\<close>

text \<open>
  What the sources consume from outside is gathered in one environment:
  \<^item> the working directory of the server process;
  \<^item> the file system, a finite table from path texts to nodes; \<open>fs.access\<close> succeeds on
    every entry, \<open>fs.readFile\<close> only on files;
  \<^item> the path component of \<open>URI.file(p).toString()\<close> (its percent-encoding) and of
    \<open>URI.parse(u).fsPath\<close> (the decoding);
  \<^item> the language service: the symbols that \<open>ls.findDocumentSymbols\<close> reports, each with
    its name, kind and the start of its range; the targets of the links that
    \<open>ls.findDocumentLinks2\<close> reports (\<open>None\<close> for a link without target; the service
    resolves a target against the files that exist); the node at an offset, the children
    of the syntax tree's root, \<open>positionAt\<close> and \<open>offsetAt\<close>; the value of the variable
    and the parameters of the mixin or function declared at an offset, which the parser
    service reads from the syntax tree;
  \<^item> \<open>JSON.parse\<close> on a config file's text, read as far as \<open>parseTsConfig\<close> reads it: the
    entries of \<open>compilerOptions.paths\<close> and \<open>extends\<close>; \<open>None\<close> when parsing or reading
    these fields throws;
  \<^item> \<open>getDocumentPath\<close>, \<open>getVariableColor\<close> and \<open>getLimitedString\<close>, helpers from
    \<open>utils/document\<close>, \<open>utils/color\<close> and \<open>utils/string\<close>, taken as parameters.
\<close>

datatype fs_node = File string | Directory

datatype SymbolKind = SymbolVariable | SymbolMethod | SymbolFunction | SymbolOther nat

record SymbolInformation =
  si_name :: string
  si_kind :: SymbolKind
  si_start :: Position

datatype error = ReadError | TypeError

record TsConfigJson =
  json_paths :: "(string \<times> string list) list"
  json_extends :: "string option"

record env =
  env_cwd :: string
  env_files :: "(string \<times> fs_node) list"
  env_uriEncode :: "string \<Rightarrow> string"
  env_uriDecode :: "string \<Rightarrow> string"
  env_lsSymbols :: "TextDocument \<Rightarrow> SymbolInformation list"
  env_lsLinks :: "TextDocument \<Rightarrow> string option list"
  env_offsetAt :: "TextDocument \<Rightarrow> Position \<Rightarrow> nat"
  env_getVariableValue :: "TextDocument \<Rightarrow> nat \<Rightarrow> string option"
  env_getMethodParameters :: "TextDocument \<Rightarrow> nat \<Rightarrow> IVariable list"
  env_nodeAtOffset :: "TextDocument \<Rightarrow> nat \<Rightarrow> INode option"
  env_rootChildren :: "TextDocument \<Rightarrow> INode list"
  env_positionAt :: "TextDocument \<Rightarrow> nat \<Rightarrow> Position"
  env_jsonParse :: "string \<Rightarrow> TsConfigJson option"
  env_getDocumentPath :: "string \<Rightarrow> string option \<Rightarrow> string"
  env_getVariableColor :: "string \<Rightarrow> string option"
  env_getLimitedString :: "string \<Rightarrow> string"

definition fileExists :: "env \<Rightarrow> string \<Rightarrow> bool" where
  "fileExists e filepath = (map_of (env_files e) filepath \<noteq> None)"

definition readFile :: "env \<Rightarrow> string \<Rightarrow> error + string" where
  "readFile e filepath =
     (case map_of (env_files e) filepath of
        Some (File content) \<Rightarrow> Inr content
      | _ \<Rightarrow> Inl ReadError)"

text \<open>
  \<open>URI.file(p).toString()\<close> and \<open>URI.parse(u).fsPath\<close> for a \<open>file\<close> URI. The path of a
  \<open>file\<close> URI begins with a slash: \<open>URI.file\<close> puts one before a path that has none.
\<close>

definition fileUri :: "env \<Rightarrow> string \<Rightarrow> string" where
  "fileUri e p = ''file://'' @ env_uriEncode e (if prefix ''/'' p then p else ''/'' @ p)"

definition uriFsPath :: "env \<Rightarrow> string \<Rightarrow> string" where
  "uriFsPath e u = env_uriDecode e (drop 7 u)"

definition uriToFsPath :: "env \<Rightarrow> string \<Rightarrow> string" where
  "uriToFsPath e u = normalize (if prefix ''file://'' u then uriFsPath e u else u)"

definition fsPathToUri :: "env \<Rightarrow> string \<Rightarrow> string" where
  "fsPathToUri e pathname = fileUri e (normalize pathname)"

definition isDescendant :: "env \<Rightarrow> string \<Rightarrow> string \<Rightarrow> bool" where
  "isDescendant e file dir =
     (let rel = relative (env_cwd e) dir file
      in rel \<noteq> [] \<and> \<not> prefix ''..'' rel \<and> \<not> isAbsolute rel)"

text \<open>
  \<open>findFileInParents\<close>. The \<open>while\<close> loop ends only when \<open>dir\<close> becomes the very text
  \<open>limit\<close> or a file is found, so it is a partial function: the outer \<open>None\<close> is a loop
  that never ends, \<open>Some None\<close> is \<open>undefined\<close>, \<open>Some (Some p)\<close> is the file found.
\<close>

partial_function (option) findInParentsLoop ::
    "env \<Rightarrow> string \<Rightarrow> string \<Rightarrow> string \<Rightarrow> string option option" where
  "findInParentsLoop e filename dir limit =
     (if dir \<noteq> limit then
        (if fileExists e (join [dir, filename]) then Some (Some (join [dir, filename]))
         else findInParentsLoop e filename (dirname dir) limit)
      else Some None)"

declare findInParentsLoop.simps [code]

definition findFileInParents :: "env \<Rightarrow> string \<Rightarrow> string \<Rightarrow> string \<Rightarrow> string option option" where
  "findFileInParents e filename dir limit =
     (if \<not> isDescendant e dir limit \<or> isDescendant e limit dir then Some None
      else findInParentsLoop e filename dir limit)"

section \<open>The storage service\<close>

text \<open>
  The three \<open>Map\<close>s of \<open>StorageService\<close> are association lists in insertion order:
  \<open>Map.set\<close> is \<^const>\<open>AList.update\<close> (a present key keeps its place, a new one goes
  last), \<open>Map.delete\<close> is \<^const>\<open>AList.delete\<close>, \<open>Map.get\<close> is \<^const>\<open>map_of\<close>.
\<close>

record StorageService =
  scssDocuments :: "(string \<times> IDocumentSymbols) list"
  tsConfigs :: "(string \<times> ITsConfig) list"
  tsConfigsAssociations :: "(string \<times> string) list"

definition newStorage :: StorageService where
  "newStorage = \<lparr>scssDocuments = [], tsConfigs = [], tsConfigsAssociations = []\<rparr>"

definition storage_get :: "StorageService \<Rightarrow> string \<Rightarrow> IDocumentSymbols option" where
  "storage_get st key = map_of (scssDocuments st) key"

definition storage_set :: "StorageService \<Rightarrow> string \<Rightarrow> IDocumentSymbols \<Rightarrow> StorageService" where
  "storage_set st key v = st\<lparr>scssDocuments := AList.update key v (scssDocuments st)\<rparr>"

definition storage_delete :: "StorageService \<Rightarrow> string \<Rightarrow> StorageService" where
  "storage_delete st key = st\<lparr>scssDocuments := AList.delete key (scssDocuments st)\<rparr>"

definition storage_clear :: "StorageService \<Rightarrow> StorageService" where
  "storage_clear st = st\<lparr>scssDocuments := [], tsConfigs := []\<rparr>"

definition getTsConfig :: "StorageService \<Rightarrow> string \<Rightarrow> ITsConfig option" where
  "getTsConfig st configUri = map_of (tsConfigs st) configUri"

definition setTsConfig :: "StorageService \<Rightarrow> string \<Rightarrow> ITsConfig \<Rightarrow> StorageService" where
  "setTsConfig st configUri configValue =
     st\<lparr>tsConfigs := AList.update configUri configValue (tsConfigs st)\<rparr>"

definition deleteTsConfig :: "StorageService \<Rightarrow> string \<Rightarrow> StorageService" where
  "deleteTsConfig st configUri = st\<lparr>tsConfigs := AList.delete configUri (tsConfigs st)\<rparr>"

text \<open>The empty string is falsy: an association to it counts as none.\<close>

definition getAssociatedTsConfig :: "StorageService \<Rightarrow> string \<Rightarrow> ITsConfig option" where
  "getAssociatedTsConfig st scssUri =
     (case map_of (tsConfigsAssociations st) scssUri of
        None \<Rightarrow> None
      | Some associatedTsConfigUri \<Rightarrow>
          (if associatedTsConfigUri \<noteq> [] then map_of (tsConfigs st) associatedTsConfigUri
           else None))"

definition associate :: "StorageService \<Rightarrow> string \<Rightarrow> string \<Rightarrow> StorageService" where
  "associate st scssUri tsConfigUri =
     st\<lparr>tsConfigsAssociations := AList.update scssUri tsConfigUri (tsConfigsAssociations st)\<rparr>"

definition desociate :: "StorageService \<Rightarrow> string \<Rightarrow> StorageService" where
  "desociate st scssUri =
     st\<lparr>tsConfigsAssociations := AList.delete scssUri (tsConfigsAssociations st)\<rparr>"

definition storage_keys :: "StorageService \<Rightarrow> string list" where
  "storage_keys st = map fst (scssDocuments st)"

definition storage_values :: "StorageService \<Rightarrow> IDocumentSymbols list" where
  "storage_values st = map snd (scssDocuments st)"

definition storage_entries :: "StorageService \<Rightarrow> (string \<times> IDocumentSymbols) list" where
  "storage_entries st = scssDocuments st"

section \<open>Alias resolution\<close>

text \<open>
  \<open>paths[0]!\<close> of an empty array is \<open>undefined\<close>, which \<open>replace\<close> turns into the text
  \<open>undefined\<close>.
\<close>

definition firstPathText :: "string list \<Rightarrow> string" where
  "firstPathText ps = (case ps of [] \<Rightarrow> ''undefined'' | x # _ \<Rightarrow> x)"

definition matchingShorthand :: "string \<Rightarrow> ITsConfig option \<Rightarrow> IPathShorthand option" where
  "matchingShorthand fsPath associatedTsConfig =
     (case associatedTsConfig of
        None \<Rightarrow> None
      | Some c \<Rightarrow>
          (case ts_paths c of
             None \<Rightarrow> None
           | Some ps \<Rightarrow> find (\<lambda>pathShorthand. prefix (sh_alias pathShorthand) fsPath) ps))"

definition resolveAliasedPath :: "string \<Rightarrow> string \<Rightarrow> string \<Rightarrow> ITsConfig option \<Rightarrow> string" where
  "resolveAliasedPath cwd fsPath documentPath associatedTsConfig =
     (case associatedTsConfig of
        None \<Rightarrow> resolve cwd [dirname documentPath, fsPath]
      | Some c \<Rightarrow>
          (case matchingShorthand fsPath associatedTsConfig of
             None \<Rightarrow> resolve cwd [dirname documentPath, fsPath]
           | Some m \<Rightarrow>
               resolve cwd [dirname (ts_filepath c),
                            js_replace fsPath (sh_alias m) (firstPathText (sh_paths m))]))"

text \<open>
  The alias table as \<open>parseTsConfig\<close> builds it from the entries of
  \<open>compilerOptions.paths\<close>: the trailing wildcard is stripped from every alias and every
  candidate.
\<close>

definition parsePathEntries :: "(string \<times> string list) list \<Rightarrow> IPathShorthand list" where
  "parsePathEntries entries =
     map (\<lambda>(a, ps). \<lparr>sh_alias = stripWildcard a, sh_paths = map stripWildcard ps\<rparr>) entries"

text \<open>The aliases that \<open>find\<close> runs over: none when \<open>paths\<close> is \<open>undefined\<close>.\<close>

definition aliasList :: "ITsConfig \<Rightarrow> IPathShorthand list" where
  "aliasList c = (case ts_paths c of None \<Rightarrow> [] | Some ps \<Rightarrow> ps)"

text \<open>A replacement text in which \<open>replace\<close> expands nothing.\<close>

fun plainReplacement :: "string \<Rightarrow> bool" where
  "plainReplacement (c # d # r) =
     (\<not> (c = dollar \<and> (d = dollar \<or> d = CHR ''&'' \<or> d = CHR 0x60 \<or> d = CHR 0x27))
      \<and> plainReplacement (d # r))"
| "plainReplacement r = True"

section \<open>The parser service\<close>

text \<open>
  \<open>findDocumentLinks\<close> keeps the links that have a target other than the empty text and
  turns each target into a path. \<open>convertLinksToImports\<close> makes an import of every link:
  dynamic when the target matches \<open>/[#{}\*]/\<close>, CSS when it ends in \<open>.css\<close>.
\<close>

definition findDocumentLinks :: "env \<Rightarrow> TextDocument \<Rightarrow> string list" where
  "findDocumentLinks e document =
     map (uriToFsPath e)
       (filter (\<lambda>target. target \<noteq> []) (List.map_filter (\<lambda>target. target) (env_lsLinks e document)))"

definition convertLinksToImports :: "string list \<Rightarrow> IImport list" where
  "convertLinksToImports links =
     map (\<lambda>target.
            \<lparr>import_reference = None, import_filepath = target,
             import_dynamic = list_ex (\<lambda>c. c \<in> {CHR ''#'', CHR 0x7B, CHR 0x7D, CHR ''*''}) target,
             import_css = suffix ''.css'' target\<rparr>) links"

text \<open>
  \<open>findDocumentSymbols\<close> sorts the symbols of the language service by kind, in the order
  reported. Each entry gets the start of the symbol's range as its position and the
  offset of that position; a variable gets its value, a mixin or function its parameters.
\<close>

definition findDocumentSymbols :: "env \<Rightarrow> TextDocument \<Rightarrow> ISymbols" where
  "findDocumentSymbols e document =
     (let symbols = env_lsSymbols e document;
          links = findDocumentLinks e document;
          toVariable = (\<lambda>symbol.
            \<lparr>var_position = Some (si_start symbol), var_mixin = None, var_name = si_name symbol,
             var_value = env_getVariableValue e document (env_offsetAt e document (si_start symbol)),
             var_offset = env_offsetAt e document (si_start symbol)\<rparr>);
          toMixin = (\<lambda>symbol.
            \<lparr>mixin_position = Some (si_start symbol), mixin_name = si_name symbol,
             mixin_parameters =
               env_getMethodParameters e document (env_offsetAt e document (si_start symbol)),
             mixin_offset = env_offsetAt e document (si_start symbol)\<rparr>)
      in \<lparr>sym_variables = map toVariable (filter (\<lambda>symbol. si_kind symbol = SymbolVariable) symbols),
          sym_mixins = map toMixin (filter (\<lambda>symbol. si_kind symbol = SymbolMethod) symbols),
          sym_functions = map toMixin (filter (\<lambda>symbol. si_kind symbol = SymbolFunction) symbols),
          sym_imports = convertLinksToImports links\<rparr>)"

text \<open>
  \<open>parseDocument\<close> puts the document's path, taken from its URI, into both \<open>document\<close>
  and \<open>filepath\<close> and adds the symbols and imports found.
\<close>

definition parseDocument :: "env \<Rightarrow> TextDocument \<Rightarrow> IDocumentSymbols" where
  "parseDocument e document =
     (let documentPath = uriToFsPath e (doc_uri document);
          found = findDocumentSymbols e document
      in \<lparr>sym_variables = sym_variables found, sym_mixins = sym_mixins found,
          sym_functions = sym_functions found, sym_imports = sym_imports found,
          sym_document = Some documentPath, sym_filepath = Some documentPath\<rparr>)"

text \<open>
  \<open>parseTsConfig\<close>. Reading the file happens before the \<open>try\<close>, so an unreadable file
  rejects (\<open>Inl\<close>). Inside the \<open>try\<close>, whatever throws, an unreadable extended config
  included, gives a config without alias table. A chain of \<open>extends\<close> may run in a circle,
  hence the partial function: \<open>None\<close> is a call that never returns.
\<close>

partial_function (option) parseTsConfig :: "env \<Rightarrow> string \<Rightarrow> (error + ITsConfig) option" where
  "parseTsConfig e filepath =
     (case readFile e filepath of
        Inl err \<Rightarrow> Some (Inl err)
      | Inr contents \<Rightarrow>
          (case env_jsonParse e contents of
             None \<Rightarrow> Some (Inr \<lparr>ts_filepath = filepath, ts_paths = None\<rparr>)
           | Some json \<Rightarrow>
               (case json_extends json of
                  None \<Rightarrow>
                    Some (Inr \<lparr>ts_filepath = filepath,
                               ts_paths = Some (parsePathEntries (json_paths json))\<rparr>)
                | Some ext \<Rightarrow>
                    (if prefix ''.'' ext then
                       Option.bind (parseTsConfig e (join [dirname filepath, ext]))
                         (\<lambda>r. Some (Inr
                            (case r of
                               Inl err \<Rightarrow> \<lparr>ts_filepath = filepath, ts_paths = None\<rparr>
                             | Inr extension \<Rightarrow>
                                 \<lparr>ts_filepath = filepath,
                                  ts_paths = Some
                                    (case ts_paths extension of
                                       None \<Rightarrow> parsePathEntries (json_paths json)
                                     | Some ps \<Rightarrow> parsePathEntries (json_paths json) @ ps)\<rparr>)))
                     else Some (Inr \<lparr>ts_filepath = filepath,
                                     ts_paths = Some (parsePathEntries (json_paths json))\<rparr>)))))"

declare parseTsConfig.simps [code]

section \<open>The scanner service\<close>

text \<open>
  \<open>addTsConfigFile\<close>. The keys of the document map are read once, after the config is
  stored; the loop changes associations only. The key itself, as stored, is what
  \<open>isDescendant\<close> receives.
\<close>

definition addTsConfigStep :: "env \<Rightarrow> string \<Rightarrow> string \<Rightarrow> StorageService \<Rightarrow> string \<Rightarrow> StorageService" where
  "addTsConfigStep e tsConfigPath tsConfigUri st scssUri =
     (if isDescendant e scssUri (dirname tsConfigPath) then
        (if tsConfigUri \<noteq> [] then associate st scssUri tsConfigUri
         else desociate st scssUri)
      else st)"

definition addTsConfigFile :: "env \<Rightarrow> StorageService \<Rightarrow> string \<Rightarrow> (error + StorageService) option" where
  "addTsConfigFile e st tsConfigPath =
     Option.bind (parseTsConfig e tsConfigPath)
       (\<lambda>r. Some
          (case r of
             Inl err \<Rightarrow> Inl err
           | Inr tsConfig \<Rightarrow>
               (let tsConfigUri = fsPathToUri e tsConfigPath;
                    st1 = setTsConfig st tsConfigUri tsConfig
                in Inr (foldl (addTsConfigStep e tsConfigPath tsConfigUri) st1 (storage_keys st1)))))"

text \<open>
  \<open>deleteTsConfigFile\<close>. The descendant test is made against the path of the config
  file itself, as the source has it.
\<close>

definition deleteTsConfigStep ::
    "env \<Rightarrow> string \<Rightarrow> string option \<Rightarrow> StorageService \<Rightarrow> string \<Rightarrow> StorageService" where
  "deleteTsConfigStep e tsConfigPath newTsConfigUri st scssPath =
     (if isDescendant e scssPath tsConfigPath then
        (case newTsConfigUri of
           Some u \<Rightarrow> (if u \<noteq> [] then associate st scssPath u else desociate st scssPath)
         | None \<Rightarrow> desociate st scssPath)
      else st)"

definition deleteTsConfigFile ::
    "env \<Rightarrow> StorageService \<Rightarrow> string \<Rightarrow> string \<Rightarrow> StorageService option" where
  "deleteTsConfigFile e st tsConfigPath workspaceDir =
     (let tsConfigUri = fsPathToUri e tsConfigPath;
          st1 = deleteTsConfig st tsConfigUri
      in Option.bind
           (findFileInParents e ''tsconfig.json'' (dirname (dirname tsConfigPath)) workspaceDir)
           (\<lambda>newTsConfigPath.
              let newTsConfigUri =
                    (case newTsConfigPath of
                       None \<Rightarrow> None
                     | Some p \<Rightarrow> (if p \<noteq> [] then Some (fsPathToUri e p) else None))
              in Some (foldl (deleteTsConfigStep e tsConfigPath newTsConfigUri) st1
                         (storage_keys st1))))"

text \<open>
  \<open>updateTsConfigFile\<close> assigns the new alias table to the stored config object. A
  config object is created by \<open>parseTsConfig\<close> and stored under one key only, so the
  assignment is an update of the entry at that key.
\<close>

definition updateTsConfigFile :: "env \<Rightarrow> StorageService \<Rightarrow> string \<Rightarrow> (error + StorageService) option" where
  "updateTsConfigFile e st tsConfigPath =
     Option.bind (parseTsConfig e tsConfigPath)
       (\<lambda>r. Some
          (case r of
             Inl err \<Rightarrow> Inl err
           | Inr newTsConfig \<Rightarrow>
               (let tsConfigUri = fsPathToUri e tsConfigPath
                in case getTsConfig st tsConfigUri of
                     None \<Rightarrow> Inr st
                   | Some oldTsConfig \<Rightarrow>
                       Inr (st\<lparr>tsConfigs :=
                              AList.update tsConfigUri
                                (oldTsConfig\<lparr>ts_paths := ts_paths newTsConfig\<rparr>)
                                (tsConfigs st)\<rparr>))))"

text \<open>
  \<open>scanScssFiles\<close>. The \<open>Set\<close> that the loop iterates is a duplicate-free list in
  insertion order; \<open>Set.add\<close> appends a new element and leaves a present one alone; the
  \<open>for\<close> loop visits the elements by position, those added on the way too. The result
  records the paths visited, the error of a rejected \<open>readFile\<close> (the scan stops there, the
  storage keeps what was written) and the storage.
\<close>

definition setAdd :: "'a list \<Rightarrow> 'a \<Rightarrow> 'a list" where
  "setAdd s x = (if x \<in> set s then s else s @ [x])"

definition newSet :: "'a list \<Rightarrow> 'a list" where
  "newSet xs = foldl setAdd [] xs"

record ScanResult =
  scan_visited :: "string list"
  scan_error :: "error option"
  scan_storage :: StorageService

definition staticImports :: "IDocumentSymbols \<Rightarrow> string list" where
  "staticImports symbols =
     map import_filepath (filter (\<lambda>symbol. \<not> (import_dynamic symbol \<or> import_css symbol))
                            (sym_imports symbols))"

text \<open>Every import target that some file of the file system can contribute.\<close>

definition allImportTargets :: "env \<Rightarrow> string set" where
  "allImportTargets e =
     (\<Union>(p, node) \<in> set (env_files e).
        (case node of
           File content \<Rightarrow>
             set (staticImports (parseDocument e \<lparr>doc_uri = fileUri e p, doc_text = content\<rparr>))
         | Directory \<Rightarrow> {}))"

function scanLoop :: "env \<Rightarrow> ISettings \<Rightarrow> string list \<Rightarrow> nat \<Rightarrow> StorageService \<Rightarrow> ScanResult" where
  "scanLoop e settings iterator i st =
     (if length iterator \<le> i then
        \<lparr>scan_visited = iterator, scan_error = None, scan_storage = st\<rparr>
      else
        let filepath = normalize (iterator ! i);
            uri = fileUri e filepath
        in if \<not> fileExists e filepath then
             scanLoop e settings iterator (Suc i) (storage_delete st uri)
           else
             (case readFile e filepath of
                Inl err \<Rightarrow>
                  \<lparr>scan_visited = take (Suc i) iterator, scan_error = Some err, scan_storage = st\<rparr>
              | Inr content \<Rightarrow>
                  let symbols = parseDocument e \<lparr>doc_uri = uri, doc_text = content\<rparr>;
                      storageValue = symbols\<lparr>sym_filepath := Some filepath\<rparr>;
                      st' = storage_set st uri storageValue
                  in if \<not> scanImportedFiles settings then
                       scanLoop e settings iterator (Suc i) st'
                     else
                       scanLoop e settings (foldl setAdd iterator (staticImports symbols))
                         (Suc i) st'))"
  by pat_completeness auto

text \<open>
  The loop ends: the file system is finite, so only finitely many import targets can
  ever join the set, and every round either visits one pending element or adds new ones.
\<close>

termination scanLoop
proof (relation "measure (\<lambda>(e, settings, iterator, i, st).
          2 * card (allImportTargets e - set iterator) + (length iterator - i))", goal_cases)
  case 1
  then show ?case by simp
next
  case (2 e settings iterator i st filepath uri)
  then show ?case by simp
next
  case (3 e settings iterator i st filepath uri content symbols storageValue st')
  then show ?case by simp
next
  case (4 e settings iterator i st filepath uri content symbols storageValue st')
  let ?U = "allImportTargets e"
  let ?xs = "staticImports symbols"
  have set_add: "set (foldl setAdd s xs) = set s \<union> set xs" for s xs :: "string list"
    by (induction xs arbitrary: s) (auto simp: setAdd_def)
  have length_add: "length (foldl setAdd s xs) = length s + card (set xs - set s)"
    for s xs :: "string list"
  proof (induction xs arbitrary: s)
    case Nil
    then show ?case by simp
  next
    case (Cons x xs)
    show ?case
    proof (cases "x \<in> set s")
      case True
      then have "set (x # xs) - set s = set xs - set s" by auto
      with True Cons show ?thesis by (simp add: setAdd_def)
    next
      case False
      then have eq: "set (x # xs) - set s = insert x (set xs - set (s @ [x]))" by auto
      have "x \<notin> set xs - set (s @ [x])" by simp
      then have "card (set (x # xs) - set s) = Suc (card (set xs - set (s @ [x])))"
        unfolding eq by (simp add: card_insert_if)
      with False Cons [of "s @ [x]"] show ?thesis by (simp add: setAdd_def)
    qed
  qed
  have "map_of (env_files e) filepath = Some (File content)"
    using 4 by (auto simp: readFile_def split: option.splits fs_node.splits)
  then have "(filepath, File content) \<in> set (env_files e)"
    by (rule map_of_SomeD)
  then have sub: "set ?xs \<subseteq> ?U"
    using 4 by (force simp: allImportTargets_def)
  have fin: "finite ?U"
    by (auto simp: allImportTargets_def split: fs_node.splits)
  have split: "?U - set iterator = (?U - (set iterator \<union> set ?xs)) \<union> (set ?xs - set iterator)"
    using sub by auto
  have "card (?U - set iterator) =
      card (?U - (set iterator \<union> set ?xs)) + card (set ?xs - set iterator)"
    by (subst split, rule card_Un_disjoint) (use fin in auto)
  moreover have "i < length iterator" using 4 by simp
  ultimately show ?case
    by (simp add: set_add length_add)
qed

declare scanLoop.simps [simp del]

definition scanScssFiles :: "env \<Rightarrow> ISettings \<Rightarrow> StorageService \<Rightarrow> string list \<Rightarrow> ScanResult" where
  "scanScssFiles e settings st files = scanLoop e settings (newSet files) 0 st"

section \<open>Go to definition\<close>

datatype SymbolKey = KeyVariables | KeyMixins | KeyFunctions | KeyImports

record IIdentifier =
  id_type :: SymbolKey
  id_position :: Position
  id_name :: string

text \<open>An entry of \<open>symbols[identifier.type]\<close>: a variable, or a mixin or function.\<close>

datatype SymbolInfo = VariableInfo IVariable | MixinInfo IMixin

fun info_name :: "SymbolInfo \<Rightarrow> string" where
  "info_name (VariableInfo v) = var_name v"
| "info_name (MixinInfo m) = mixin_name m"

fun info_position :: "SymbolInfo \<Rightarrow> Position option" where
  "info_position (VariableInfo v) = var_position v"
| "info_position (MixinInfo m) = mixin_position m"

record ISymbol =
  symbol_document :: "string option"
  symbol_path :: string
  symbol_info :: SymbolInfo

record Location =
  loc_uri :: string
  loc_start :: Position
  loc_end :: Position

definition samePosition :: "Position option \<Rightarrow> Position \<Rightarrow> bool" where
  "samePosition a b =
     (case a of
        None \<Rightarrow> False
      | Some a' \<Rightarrow> pos_line a' = pos_line b \<and> pos_character a' = pos_character b)"

text \<open>
  \<open>symbols[identifier.type]\<close>. The loop of \<open>getSymbols\<close> skips the key \<open>imports\<close> before
  it reads the list.
\<close>

definition symbolsOfType :: "IDocumentSymbols \<Rightarrow> SymbolKey \<Rightarrow> SymbolInfo list" where
  "symbolsOfType symbols k =
     (case k of
        KeyVariables \<Rightarrow> map VariableInfo (sym_variables symbols)
      | KeyMixins \<Rightarrow> map MixinInfo (sym_mixins symbols)
      | KeyFunctions \<Rightarrow> map MixinInfo (sym_functions symbols)
      | KeyImports \<Rightarrow> [])"

definition getSymbolsCollection :: "StorageService \<Rightarrow> IDocumentSymbols list" where
  "getSymbolsCollection storage = storage_values storage"

definition getSymbolsRelatedToDocument :: "StorageService \<Rightarrow> string \<Rightarrow> IDocumentSymbols list" where
  "getSymbolsRelatedToDocument storage current =
     filter (\<lambda>item. sym_document item \<noteq> Some current \<or> sym_filepath item \<noteq> Some current)
       (getSymbolsCollection storage)"

definition getSymbolsItem ::
    "IDocumentSymbols \<Rightarrow> string \<Rightarrow> IIdentifier \<Rightarrow> ISymbol list \<Rightarrow> SymbolInfo \<Rightarrow> ISymbol list" where
  "getSymbolsItem symbols fsPath identifier list item =
     (if info_name item = id_name identifier
         \<and> \<not> samePosition (info_position item) (id_position identifier)
      then list @ [\<lparr>symbol_document = sym_filepath symbols, symbol_path = fsPath,
                    symbol_info = item\<rparr>]
      else list)"

definition getSymbolsDocument ::
    "env \<Rightarrow> IIdentifier \<Rightarrow> string \<Rightarrow> ISymbol list \<Rightarrow> IDocumentSymbols \<Rightarrow> ISymbol list" where
  "getSymbolsDocument e identifier currentPath list symbols =
     (let fsPath = env_getDocumentPath e currentPath (sym_document symbols)
      in if id_type identifier = KeyImports then list
         else foldl (getSymbolsItem symbols fsPath identifier) list
                (symbolsOfType symbols (id_type identifier)))"

definition getSymbols :: "env \<Rightarrow> IDocumentSymbols list \<Rightarrow> IIdentifier \<Rightarrow> string \<Rightarrow> ISymbol list" where
  "getSymbols e symbolList identifier currentPath =
     foldl (getSymbolsDocument e identifier currentPath) [] symbolList"

text \<open>
  \<open>goIdentifier\<close> gives back the storage, which it writes, and the answer: a location,
  \<open>null\<close> (\<open>Inr None\<close>), or the \<open>TypeError\<close> of reading \<open>line\<close> from a position that is
  \<open>undefined\<close>. The end of the location is the start moved by \<open>name.length\<close>.
\<close>

definition goIdentifier ::
    "env \<Rightarrow> TextDocument \<Rightarrow> IDocumentSymbols \<Rightarrow> StorageService \<Rightarrow> IIdentifier
     \<Rightarrow> StorageService \<times> (error + Location option)" where
  "goIdentifier e document symbols storage identifier =
     (let storage1 = (if sym_document symbols \<noteq> None
                      then storage_set storage (doc_uri document) symbols else storage);
          documentPath = uriToFsPath e (doc_uri document);
          symbolsList = getSymbolsRelatedToDocument storage1 documentPath;
          candidates = getSymbols e symbolsList identifier documentPath
      in (storage1,
          case candidates of
            [] \<Rightarrow> Inr None
          | definition # _ \<Rightarrow>
              (case symbol_document definition of
                 None \<Rightarrow> Inr None
               | Some d \<Rightarrow>
                   (case info_position (symbol_info definition) of
                      None \<Rightarrow> Inl TypeError
                    | Some pos \<Rightarrow>
                        Inr (Some \<lparr>loc_uri = fileUri e d, loc_start = pos,
                                   loc_end = \<lparr>pos_line = pos_line pos,
                                              pos_character = pos_character pos
                                                + jsLength (info_name (symbol_info definition))\<rparr>\<rparr>)))))"

text \<open>
  The walk from an identifier to the mixin reference or function call it names: at most
  two steps up; reading the type of a missing parent throws.
\<close>

function walkUp :: "INode option \<Rightarrow> nat \<Rightarrow> error + INode" where
  "walkUp None i = Inl TypeError"
| "walkUp (Some node) i =
     (if node_type node \<noteq> MixinReference \<and> node_type node \<noteq> Function \<and> i \<noteq> 2
      then walkUp (node_parent node) (Suc i)
      else Inr node)"
  by pat_completeness auto
termination
proof (relation "measure (\<lambda>(n, i). case n of None \<Rightarrow> 0 | Some node \<Rightarrow> size node)", goal_cases)
  case 1
  show ?case by simp
next
  case (2 node i)
  show ?case by (cases node) (auto split: option.splits)
qed

definition goDefinition ::
    "env \<Rightarrow> TextDocument \<Rightarrow> nat \<Rightarrow> StorageService \<Rightarrow> StorageService \<times> (error + Location option)" where
  "goDefinition e document offset storage =
     (let symbols = parseDocument e document
      in case env_nodeAtOffset e document offset of
           None \<Rightarrow> (storage, Inr None)
         | Some hoverNode \<Rightarrow>
             (if node_type hoverNode = OtherNodeType 0 then (storage, Inr None)
              else if node_type hoverNode = VariableName then
                (case node_parent hoverNode of
                   None \<Rightarrow> (storage, Inl TypeError)
                 | Some parent \<Rightarrow>
                     (if node_type parent \<noteq> FunctionParameter
                         \<and> node_type parent \<noteq> VariableDeclaration
                      then goIdentifier e document symbols storage
                             \<lparr>id_type = KeyVariables,
                              id_position = env_positionAt e document (node_offset hoverNode),
                              id_name = node_name hoverNode\<rparr>
                      else (storage, Inr None)))
              else if node_type hoverNode = Identifier then
                (case walkUp (Some hoverNode) 0 of
                   Inl err \<Rightarrow> (storage, Inl err)
                 | Inr node \<Rightarrow>
                     (if node_type node = MixinReference \<or> node_type node = Function
                      then goIdentifier e document symbols storage
                             \<lparr>id_type = (if node_type node = Function then KeyFunctions
                                         else KeyMixins),
                              id_position = env_positionAt e document (node_offset node),
                              id_name = node_name node\<rparr>
                      else (storage, Inr None)))
              else (storage, Inr None)))"

section \<open>Completion\<close>

datatype CompletionItemKind =
    KindFunction | KindVariable | KindInterface | KindColor | KindFile | KindFolder

record TextEdit =
  edit_start :: Position
  edit_end :: Position
  edit_newText :: string

text \<open>A completion item; a property that the source leaves out is \<open>None\<close> or \<open>[]\<close>.\<close>

record CompletionItem =
  item_label :: string
  item_kind :: CompletionItemKind
  item_detail :: string
  item_documentation :: "string option"
  item_insertText :: "string option"
  item_sortText :: "string option"
  item_additionalTextEdits :: "TextEdit list"

text \<open>
  The context flags of \<open>createCompletionContext\<close>, which come from regular expressions
  over the text before the cursor, and the items of \<open>createImportCompletionItems\<close>, which
  come from reading a directory, are given to \<open>doCompletion\<close> as they were computed.
\<close>

record CompletionContext =
  ctx_comment :: bool
  ctx_variable :: bool
  ctx_function :: bool
  ctx_mixin :: bool
  ctx_import :: bool
  ctx_use :: bool

definition isImplicitly :: "string option \<Rightarrow> string \<Rightarrow> string list \<Rightarrow> bool" where
  "isImplicitly symbolsDocument documentPath documentImports =
     (case symbolsDocument of
        None \<Rightarrow> True
      | Some d \<Rightarrow> d \<noteq> documentPath \<and> d \<notin> set documentImports)"

text \<open>\<open>Array.prototype.join\<close> with a separator.\<close>

fun joinWith :: "string \<Rightarrow> string list \<Rightarrow> string" where
  "joinWith sep [] = []"
| "joinWith sep [s] = s"
| "joinWith sep (s # t # ss) = s @ sep @ joinWith sep (t # ss)"

text \<open>A template literal prints a \<open>null\<close> value as the text \<open>null\<close>.\<close>

definition makeMixinDocumentation :: "IMixin \<Rightarrow> string" where
  "makeMixinDocumentation symbol =
     (let args = map (\<lambda>item. var_name item @ '': ''
                        @ (case var_value item of None \<Rightarrow> ''null'' | Some v \<Rightarrow> v))
                   (mixin_parameters symbol)
      in mixin_name symbol @ ''('' @ joinWith '', '' args @ '') {''
         @ [CHR 0xE2, CHR 0x80, CHR 0xA6] @ ''}'')"

text \<open>A string is truthy when it is present and not empty.\<close>

definition truthy :: "string option \<Rightarrow> bool" where
  "truthy s = (case s of None \<Rightarrow> False | Some t \<Rightarrow> t \<noteq> [])"

text \<open>
  \<open>children.filter(Use).sort((a, b) => b.offset - a.offset)[0]\<close>: the \<open>@use\<close> child with
  the greatest offset, the earliest one among equals.
\<close>

definition lastUseOf :: "INode list \<Rightarrow> INode option" where
  "lastUseOf children =
     foldl (\<lambda>best child.
              case best of
                None \<Rightarrow> Some child
              | Some b \<Rightarrow> (if node_offset b < node_offset child then Some child else Some b))
       None (filter (\<lambda>child. node_type child = Use) children)"

definition createUseEdit :: "env \<Rightarrow> TextDocument \<Rightarrow> INode \<Rightarrow> string \<Rightarrow> TextEdit" where
  "createUseEdit e document lastUse fsPath =
     (let start = env_positionAt e document (node_offset lastUse + node_length lastUse)
      in \<lparr>edit_start = start, edit_end = start,
          edit_newText = [CHR 0x0A] @ ''@use '' @ [CHR 0x27] @ fsPath @ [CHR 0x27] @ '';''\<rparr>)"

text \<open>
  \<open>symbol.document?.replace('file:', '')\<close> finds nothing to expand in the empty
  replacement text.
\<close>

definition createVariableItem ::
    "env \<Rightarrow> TextDocument \<Rightarrow> ISettings \<Rightarrow> bool \<Rightarrow> INode option \<Rightarrow> bool \<Rightarrow> string
     \<Rightarrow> IVariable \<Rightarrow> CompletionItem" where
  "createVariableItem e document settings isOnlyUse lastUse isImplicitlyImport fsPath variable =
     (let color = env_getVariableColor e (case var_value variable of None \<Rightarrow> [] | Some v \<Rightarrow> v);
          completionKind = (if color \<noteq> None then KindColor else KindVariable);
          detailPath0 = stripScssExt (normalize fsPath);
          detailPath =
            (if isImplicitlyImport \<and> truthy (implicitlyLabel settings) \<and> \<not> isOnlyUse
             then the (implicitlyLabel settings) @ '' '' @ detailPath0
             else detailPath0);
          detailText =
            (if truthy (var_mixin variable)
             then ''argument from '' @ the (var_mixin variable) @ '', '' @ detailPath
             else detailPath)
      in \<lparr>item_label = var_name variable,
          item_kind = completionKind,
          item_detail = detailText,
          item_documentation = Some (env_getLimitedString e
             (case color of
                Some c \<Rightarrow> c
              | None \<Rightarrow> (case var_value variable of None \<Rightarrow> [] | Some v \<Rightarrow> v))),
          item_insertText = None,
          item_sortText = None,
          item_additionalTextEdits =
            (case lastUse of
               Some u \<Rightarrow> (if isOnlyUse then [createUseEdit e document u detailPath] else [])
             | None \<Rightarrow> [])\<rparr>)"

definition createVariableCompletionItems ::
    "env \<Rightarrow> TextDocument \<Rightarrow> INode list option \<Rightarrow> IDocumentSymbols list \<Rightarrow> string \<Rightarrow> string list
     \<Rightarrow> ISettings \<Rightarrow> CompletionItem list" where
  "createVariableCompletionItems e document ast symbols filepath imports settings =
     (let isOnlyUse =
            (case ast of
               None \<Rightarrow> True
             | Some children \<Rightarrow> \<not> list_ex (\<lambda>child. node_type child = Import) children);
          lastUse = (case ast of None \<Rightarrow> None | Some children \<Rightarrow> lastUseOf children)
      in concat (map (\<lambda>symbol.
           let isImplicitlyImport = isImplicitly (sym_document symbol) filepath imports;
               symbolsPath =
                 (if isImplicitlyImport then sym_filepath symbol
                  else map_option (\<lambda>d. js_replace d ''file:'' []) (sym_document symbol));
               fsPath = env_getDocumentPath e (uriToFsPath e filepath)
                          (if truthy symbolsPath then Some (uriToFsPath e (the symbolsPath))
                           else None)
           in map (createVariableItem e document settings isOnlyUse lastUse
                     isImplicitlyImport fsPath)
                (sym_variables symbol)) symbols))"

definition createMixinItem ::
    "ISettings \<Rightarrow> CompletionItemKind \<Rightarrow> bool \<Rightarrow> string \<Rightarrow> IMixin \<Rightarrow> CompletionItem" where
  "createMixinItem settings kind isImplicitlyImport fsPath mixin =
     (let detailPath =
            (if isImplicitlyImport \<and> truthy (implicitlyLabel settings)
             then the (implicitlyLabel settings) @ '' '' @ fsPath
             else fsPath)
      in \<lparr>item_label = mixin_name mixin,
          item_kind = kind,
          item_detail = detailPath,
          item_documentation = Some (makeMixinDocumentation mixin),
          item_insertText = Some (mixin_name mixin),
          item_sortText = None,
          item_additionalTextEdits = []\<rparr>)"

definition createMixinCompletionItems ::
    "env \<Rightarrow> IDocumentSymbols list \<Rightarrow> string \<Rightarrow> string list \<Rightarrow> ISettings \<Rightarrow> CompletionItem list" where
  "createMixinCompletionItems e symbols filepath imports settings =
     concat (map (\<lambda>symbol.
        let isImplicitlyImport = isImplicitly (sym_document symbol) filepath imports;
            fsPath = env_getDocumentPath e filepath
                       (if isImplicitlyImport then sym_filepath symbol else sym_document symbol)
        in map (createMixinItem settings KindFunction isImplicitlyImport fsPath)
             (sym_mixins symbol)) symbols)"

definition createFunctionCompletionItems ::
    "env \<Rightarrow> IDocumentSymbols list \<Rightarrow> string \<Rightarrow> string list \<Rightarrow> ISettings \<Rightarrow> CompletionItem list" where
  "createFunctionCompletionItems e symbols filepath imports settings =
     concat (map (\<lambda>symbol.
        let isImplicitlyImport = isImplicitly (sym_document symbol) filepath imports;
            fsPath = env_getDocumentPath e filepath
                       (if isImplicitlyImport then sym_filepath symbol else sym_document symbol)
        in map (createMixinItem settings KindInterface isImplicitlyImport fsPath)
             (sym_functions symbol)) symbols)"

definition doCompletion ::
    "env \<Rightarrow> CompletionContext \<Rightarrow> CompletionItem list \<Rightarrow> TextDocument \<Rightarrow> nat \<Rightarrow> ISettings
     \<Rightarrow> StorageService \<Rightarrow> StorageService \<times> CompletionItem list" where
  "doCompletion e context uses document offset settings storage =
     (let documentPath = uriToFsPath e (doc_uri document);
          symbols = parseDocument e document;
          ast = Some (env_rootChildren e document);
          storage1 = storage_set storage (doc_uri document) symbols;
          symbolsList = getSymbolsRelatedToDocument storage1 documentPath;
          documentImports = map import_filepath (sym_imports symbols)
      in if ctx_comment context then (storage1, [])
         else
           (storage1,
            (if ctx_use context \<or> ctx_import context then uses else [])
            @ (if suggestVariables settings \<and> ctx_variable context
               then createVariableCompletionItems e document ast symbolsList documentPath
                      documentImports settings
               else [])
            @ (if suggestMixins settings \<and> ctx_mixin context
               then createMixinCompletionItems e symbolsList documentPath documentImports settings
               else [])
            @ (if suggestFunctions settings \<and> ctx_function context
               then createFunctionCompletionItems e symbolsList documentPath documentImports
                      settings
               else [])))"

section \<open>A sample workspace\<close>

text \<open>
  A POSIX workspace on which the theorems are exercised. Two style sheets import each
  other; \<open>b.scss\<close> declares a variable and a mixin, \<open>f.scss\<close> a function. Paths consist
  of characters that a URI leaves as they are, so the encoding and decoding of the path
  are the identity. The sample language service knows the sample texts: it reports a
  variable at its name, a mixin or function at its keyword and a rule set at its selector
  (a symbol of kind \<open>Class\<close>, number 5, which the parser service drops), and it resolves
  the import of \<open>b\<close> to \<open>b.scss\<close> when that file exists and to \<open>b\<close> when it does not. All
  sample texts are one line long. \<open>getDocumentPath\<close> answers with the path of the symbols'
  document, no colour is recognised and no text is cut.
\<close>

definition aText :: string where
  "aText = ''@import b; .x { color: $color }''"

definition bText :: string where
  "bText = ''@import a; $color: red; @mixin box {}''"

definition fText :: string where
  "fText = ''@function gap() { @return 4px }''"

definition gText :: string where
  "gText = ''.z { width: gap() }''"

definition kText :: string where
  "kText = ''.k { @include card }''"

definition tsConfigText :: string where
  "tsConfigText = ''{ compilerOptions: { paths: { @lib/*: [libs/*] } } }''"

definition tsConfigText2 :: string where
  "tsConfigText2 = ''{ compilerOptions: { paths: { @ui/*: [src/ui/*] } } }''"

definition colorVariable :: IVariable where
  "colorVariable =
     \<lparr>var_position = Some \<lparr>pos_line = 0, pos_character = 11\<rparr>, var_mixin = None,
      var_name = ''$color'', var_value = Some ''red'', var_offset = 11\<rparr>"

definition boxMixin :: IMixin where
  "boxMixin =
     \<lparr>mixin_position = Some \<lparr>pos_line = 0, pos_character = 24\<rparr>, mixin_name = ''box'',
      mixin_parameters = [], mixin_offset = 24\<rparr>"

definition gapFunction :: IMixin where
  "gapFunction =
     \<lparr>mixin_position = Some \<lparr>pos_line = 0, pos_character = 0\<rparr>, mixin_name = ''gap'',
      mixin_parameters = [], mixin_offset = 0\<rparr>"

definition sampleLsSymbols :: "TextDocument \<Rightarrow> SymbolInformation list" where
  "sampleLsSymbols document =
     (if doc_text document = aText then
        [\<lparr>si_name = ''.x'', si_kind = SymbolOther 5,
          si_start = \<lparr>pos_line = 0, pos_character = 11\<rparr>\<rparr>]
      else if doc_text document = bText then
        [\<lparr>si_name = ''$color'', si_kind = SymbolVariable,
          si_start = \<lparr>pos_line = 0, pos_character = 11\<rparr>\<rparr>,
         \<lparr>si_name = ''box'', si_kind = SymbolMethod,
          si_start = \<lparr>pos_line = 0, pos_character = 24\<rparr>\<rparr>]
      else if doc_text document = fText then
        [\<lparr>si_name = ''gap'', si_kind = SymbolFunction,
          si_start = \<lparr>pos_line = 0, pos_character = 0\<rparr>\<rparr>]
      else if prefix ''.'' (doc_text document) then
        [\<lparr>si_name = take 2 (doc_text document), si_kind = SymbolOther 5,
          si_start = \<lparr>pos_line = 0, pos_character = 0\<rparr>\<rparr>]
      else [])"

definition sampleLinkTarget :: "(string \<times> fs_node) list \<Rightarrow> string \<Rightarrow> string" where
  "sampleLinkTarget files name =
     (if map_of files (''/proj/'' @ name @ ''.scss'') \<noteq> None
      then ''file:///proj/'' @ name @ ''.scss''
      else ''file:///proj/'' @ name)"

definition sampleLsLinks :: "(string \<times> fs_node) list \<Rightarrow> TextDocument \<Rightarrow> string option list" where
  "sampleLsLinks files document =
     (if doc_text document = aText then [Some (sampleLinkTarget files ''b'')]
      else if doc_text document = bText then [Some (sampleLinkTarget files ''a'')]
      else [])"

text \<open>
  The syntax nodes of the sample texts that a query can sit on: the variable \<open>$color\<close>
  in the declaration of \<open>a.scss\<close> (a variable name in a term of an expression), the names
  \<open>box\<close> and \<open>card\<close> after \<open>@include\<close> (an identifier in a mixin reference) and the name
  \<open>gap\<close> of the call in \<open>g.scss\<close> (an identifier in a function node, which is in a term
  of an expression). Node types without a name of their own carry the number that
  \<open>NodeType\<close> gives them: 2 is the style sheet, 3 a rule set, 19 a declaration, 20 the
  declarations of a rule set, 22 an expression, 24 a term. Everywhere else the sample
  answers with the style sheet node.
\<close>

definition sheetNode :: "TextDocument \<Rightarrow> INode" where
  "sheetNode document = Node (OtherNodeType 2) [] 0 (length (doc_text document)) None"

definition bodyNode :: "TextDocument \<Rightarrow> nat \<Rightarrow> INode" where
  "bodyNode document start =
     Node (OtherNodeType 20) [] (start + 3) (length (doc_text document) - (start + 3))
       (Some (Node (OtherNodeType 3) [] start (length (doc_text document) - start)
          (Some (sheetNode document))))"

definition valueNode :: "TextDocument \<Rightarrow> nat \<Rightarrow> nat \<Rightarrow> nat \<Rightarrow> INode" where
  "valueNode document start offset len =
     Node (OtherNodeType 24) [] offset len
       (Some (Node (OtherNodeType 22) [] offset len
          (Some (Node (OtherNodeType 19) [] (start + 5) (offset + len - (start + 5))
             (Some (bodyNode document start))))))"

definition sampleNodeAt :: "TextDocument \<Rightarrow> nat \<Rightarrow> INode option" where
  "sampleNodeAt document offset =
     (if doc_text document = aText \<and> 23 \<le> offset \<and> offset \<le> 29 then
        Some (Node VariableName ''$color'' 23 6 (Some (valueNode document 11 23 6)))
      else if doc_text document = ''.y { @include box }'' \<and> 14 \<le> offset \<and> offset \<le> 17 then
        Some (Node Identifier ''box'' 14 3
                (Some (Node MixinReference ''box'' 5 12 (Some (bodyNode document 0)))))
      else if doc_text document = kText \<and> 14 \<le> offset \<and> offset \<le> 18 then
        Some (Node Identifier ''card'' 14 4
                (Some (Node MixinReference ''card'' 5 13 (Some (bodyNode document 0)))))
      else if doc_text document = gText \<and> 12 \<le> offset \<and> offset \<le> 15 then
        Some (Node Identifier ''gap'' 12 3
                (Some (Node Function ''gap'' 12 5 (Some (valueNode document 0 12 5)))))
      else Some (sheetNode document))"

definition sampleJson :: "string \<Rightarrow> TsConfigJson option" where
  "sampleJson contents =
     (if contents = tsConfigText
      then Some \<lparr>json_paths = [(''@lib/*'', [''libs/*''])], json_extends = None\<rparr>
      else if contents = tsConfigText2
      then Some \<lparr>json_paths = [(''@ui/*'', [''src/ui/*''])], json_extends = None\<rparr>
      else None)"

definition sampleEnv :: "string \<Rightarrow> (string \<times> fs_node) list \<Rightarrow> env" where
  "sampleEnv workingDirectory files =
     \<lparr>env_cwd = workingDirectory,
      env_files = files,
      env_uriEncode = (\<lambda>p. p),
      env_uriDecode = (\<lambda>p. p),
      env_lsSymbols = sampleLsSymbols,
      env_lsLinks = sampleLsLinks files,
      env_offsetAt = (\<lambda>document position. pos_character position),
      env_getVariableValue = (\<lambda>document offset.
         if doc_text document = bText \<and> offset = 11 then Some ''red'' else None),
      env_getMethodParameters = (\<lambda>document offset. []),
      env_nodeAtOffset = sampleNodeAt,
      env_rootChildren = (\<lambda>document. []),
      env_positionAt = (\<lambda>document offset. \<lparr>pos_line = 0, pos_character = offset\<rparr>),
      env_jsonParse = sampleJson,
      env_getDocumentPath = (\<lambda>currentPath symbolsPath.
         case symbolsPath of None \<Rightarrow> currentPath | Some p \<Rightarrow> p),
      env_getVariableColor = (\<lambda>v. None),
      env_getLimitedString = (\<lambda>s. s)\<rparr>"

definition sampleFiles :: "(string \<times> fs_node) list" where
  "sampleFiles =
     [(''/proj/a.scss'', File aText), (''/proj/b.scss'', File bText),
      (''/proj/tsconfig.json'', File tsConfigText)]"

definition sampleSettings :: ISettings where
  "sampleSettings =
     \<lparr>scannerDepth = 32, scannerExclude = [''node_modules''], scanImportedFiles = True,
      implicitlyLabel = Some ''(implicitly)'', showErrors = True, suggestVariables = True,
      suggestMixins = True, suggestFunctions = True,
      suggestFunctionsInStringContextAfterSymbols = []\<rparr>"

text \<open>
  The storage after the first scan of \<open>a.scss\<close> by a server working in \<open>/proj\<close>, and
  after the config of \<open>/proj\<close> is added to it.
\<close>

definition scannedStorage :: StorageService where
  "scannedStorage =
     scan_storage (scanScssFiles (sampleEnv ''/proj'' sampleFiles) sampleSettings newStorage
       [''/proj/a.scss''])"

definition configuredStorage :: StorageService where
  "configuredStorage =
     (case addTsConfigFile (sampleEnv ''/proj'' sampleFiles) scannedStorage
             ''/proj/tsconfig.json'' of
        Some (Inr st) \<Rightarrow> st
      | _ \<Rightarrow> scannedStorage)"

text \<open>
  A workspace with a config in a subdirectory, scanned by a server working in \<open>/proj\<close>.
\<close>

definition nestedFiles :: "(string \<times> fs_node) list" where
  "nestedFiles =
     [(''/proj/sub/x.scss'', File ''.x { color: red }''),
      (''/proj/sub/tsconfig.json'', File tsConfigText)]"

definition nestedStorage :: StorageService where
  "nestedStorage =
     scan_storage (scanScssFiles (sampleEnv ''/proj'' nestedFiles) sampleSettings newStorage
       [''/proj/sub/x.scss''])"

text \<open>
  A third style sheet, with no \<open>@use\<close> and no \<open>@import\<close>, in which completion is asked
  for: once where a mixin is expected, once where a variable is.
\<close>

definition cDocument :: TextDocument where
  "cDocument = \<lparr>doc_uri = ''file:///proj/c.scss'', doc_text = ''.y { @include box }''\<rparr>"

definition mixinContext :: CompletionContext where
  "mixinContext =
     \<lparr>ctx_comment = False, ctx_variable = False, ctx_function = False, ctx_mixin = True,
      ctx_import = False, ctx_use = False\<rparr>"

definition variableContext :: CompletionContext where
  "variableContext =
     \<lparr>ctx_comment = False, ctx_variable = True, ctx_function = False, ctx_mixin = False,
      ctx_import = False, ctx_use = False\<rparr>"

text \<open>
  The workspace with the function library \<open>f.scss\<close> beside the two style sheets, all
  three scanned, and the documents in which a definition is asked for: \<open>a.scss\<close> at the
  variable \<open>$color\<close>, \<open>c.scss\<close> at the mixin \<open>box\<close>, \<open>g.scss\<close> at the function \<open>gap\<close> and
  \<open>k.scss\<close> at the mixin \<open>card\<close>, which no style sheet declares.
\<close>

definition queryFiles :: "(string \<times> fs_node) list" where
  "queryFiles = sampleFiles @ [(''/proj/f.scss'', File fText)]"

definition queryStorage :: StorageService where
  "queryStorage =
     scan_storage (scanScssFiles (sampleEnv ''/proj'' queryFiles) sampleSettings newStorage
       [''/proj/a.scss'', ''/proj/f.scss''])"

definition aDocument :: TextDocument where
  "aDocument = \<lparr>doc_uri = ''file:///proj/a.scss'', doc_text = aText\<rparr>"

definition gDocument :: TextDocument where
  "gDocument = \<lparr>doc_uri = ''file:///proj/g.scss'', doc_text = gText\<rparr>"

definition kDocument :: TextDocument where
  "kDocument = \<lparr>doc_uri = ''file:///proj/k.scss'', doc_text = kText\<rparr>"

section \<open>Notions that the claims use\<close>

text \<open>
  The directories that \<open>findFileInParents\<close> is to look into: \<open>dir\<close> and its parents, \<open>n\<close>
  of them in all.
\<close>

fun ancestorDirs :: "nat \<Rightarrow> string \<Rightarrow> string list" where
  "ancestorDirs 0 dir = []"
| "ancestorDirs (Suc n) dir = dir # ancestorDirs n (dirname dir)"

text \<open>Every association points at a config that the config map holds.\<close>

definition associationTargetsStored :: "StorageService \<Rightarrow> bool" where
  "associationTargetsStored st =
     list_all (\<lambda>(scssUri, tsConfigUri). map_of (tsConfigs st) tsConfigUri \<noteq> None)
       (tsConfigsAssociations st)"

text \<open>
  An entry matches an identifier when it has the identifier's name and is not declared
  at the identifier's own position.
\<close>

definition matchesIdentifier :: "IIdentifier \<Rightarrow> SymbolInfo \<Rightarrow> bool" where
  "matchesIdentifier identifier item =
     (info_name item = id_name identifier \<and> info_position item \<noteq> Some (id_position identifier))"

text \<open>
  The entries of one kind in a table: its variables, its mixins or its functions. Imports
  are not entries.
\<close>

fun entriesOfKind :: "SymbolKey \<Rightarrow> IDocumentSymbols \<Rightarrow> SymbolInfo list" where
  "entriesOfKind KeyVariables table = map VariableInfo (sym_variables table)"
| "entriesOfKind KeyMixins table = map MixinInfo (sym_mixins table)"
| "entriesOfKind KeyFunctions table = map MixinInfo (sym_functions table)"
| "entriesOfKind KeyImports table = []"

definition matchingEntries :: "IIdentifier \<Rightarrow> IDocumentSymbols \<Rightarrow> SymbolInfo list" where
  "matchingEntries identifier table =
     filter (matchesIdentifier identifier) (entriesOfKind (id_type identifier) table)"

text \<open>
  The candidates of a query from the document at \<open>current\<close>: the matching entries of the
  kind asked for, table by table in the order of the index, the tables of \<open>current\<close>
  itself left out.
\<close>

definition candidateEntries ::
    "StorageService \<Rightarrow> string \<Rightarrow> IIdentifier \<Rightarrow> (IDocumentSymbols \<times> SymbolInfo) list" where
  "candidateEntries st current identifier =
     concat (map (\<lambda>table. map (Pair table) (matchingEntries identifier table))
               (filter (\<lambda>table. \<not> (sym_document table = Some current
                                      \<and> sym_filepath table = Some current))
                  (storage_values st)))"

definition locationOfEntry :: "env \<Rightarrow> string \<Rightarrow> Position \<Rightarrow> SymbolInfo \<Rightarrow> Location" where
  "locationOfEntry e declaringFile pos item =
     \<lparr>loc_uri = fileUri e declaringFile, loc_start = pos,
      loc_end = \<lparr>pos_line = pos_line pos,
                 pos_character = pos_character pos + jsLength (info_name item)\<rparr>\<rparr>"

text \<open>
  What a query asks for. On a variable name that is not the head of a parameter or of a
  variable declaration it is the variable of that name. On an identifier it is the mixin
  or function whose reference or call is the parent of the identifier or, when the
  parent is neither, its grandparent. The position of the query is that of the variable
  name, of the mixin reference or of the call. Any other place asks for nothing.
\<close>

definition isCall :: "INode \<Rightarrow> bool" where
  "isCall node = (node_type node = MixinReference \<or> node_type node = Function)"

definition callIdentifier :: "env \<Rightarrow> TextDocument \<Rightarrow> INode \<Rightarrow> IIdentifier" where
  "callIdentifier e document node =
     \<lparr>id_type = (if node_type node = Function then KeyFunctions else KeyMixins),
      id_position = env_positionAt e document (node_offset node),
      id_name = node_name node\<rparr>"

definition identifierUnderCursor :: "env \<Rightarrow> TextDocument \<Rightarrow> nat \<Rightarrow> IIdentifier option" where
  "identifierUnderCursor e document offset =
     (case env_nodeAtOffset e document offset of
        None \<Rightarrow> None
      | Some hoverNode \<Rightarrow>
          (case node_parent hoverNode of
             None \<Rightarrow> None
           | Some parent \<Rightarrow>
               (if node_type hoverNode = VariableName then
                  (if node_type parent = FunctionParameter \<or> node_type parent = VariableDeclaration
                   then None
                   else Some \<lparr>id_type = KeyVariables,
                              id_position = env_positionAt e document (node_offset hoverNode),
                              id_name = node_name hoverNode\<rparr>)
                else if node_type hoverNode = Identifier then
                  (if isCall parent then Some (callIdentifier e document parent)
                   else (case node_parent parent of
                           None \<Rightarrow> None
                         | Some grandparent \<Rightarrow>
                             (if isCall grandparent
                              then Some (callIdentifier e document grandparent)
                              else None)))
                else None)))"

text \<open>
  The tables that the parser service builds are complete: the table has a file path and
  each of its variables, mixins and functions a position. The states of the storage that
  the server reaches: it starts empty and is changed by the entry points of the scanner
  and by the two providers that write to it.
\<close>

definition completeTable :: "IDocumentSymbols \<Rightarrow> bool" where
  "completeTable table =
     (sym_filepath table \<noteq> None
      \<and> list_all (\<lambda>v. var_position v \<noteq> None) (sym_variables table)
      \<and> list_all (\<lambda>m. mixin_position m \<noteq> None) (sym_mixins table)
      \<and> list_all (\<lambda>m. mixin_position m \<noteq> None) (sym_functions table))"

inductive reachable :: "StorageService \<Rightarrow> bool" where
  reachable_new: "reachable newStorage"
| reachable_scan:
    "reachable st \<Longrightarrow> reachable (scan_storage (scanScssFiles e settings st files))"
| reachable_add:
    "reachable st \<Longrightarrow> addTsConfigFile e st tsConfigPath = Some (Inr st') \<Longrightarrow> reachable st'"
| reachable_update:
    "reachable st \<Longrightarrow> updateTsConfigFile e st tsConfigPath = Some (Inr st') \<Longrightarrow> reachable st'"
| reachable_delete:
    "reachable st \<Longrightarrow> deleteTsConfigFile e st tsConfigPath workspaceDir = Some st' \<Longrightarrow>
     reachable st'"
| reachable_definition:
    "reachable st \<Longrightarrow> reachable (fst (goDefinition e document offset st))"
| reachable_completion:
    "reachable st \<Longrightarrow> reachable (fst (doCompletion e ctx uses document offset settings st))"

text \<open>The record that \<open>getSymbols\<close> pushes for an entry of a table.\<close>

definition toSymbol :: "env \<Rightarrow> string \<Rightarrow> IDocumentSymbols \<Rightarrow> SymbolInfo \<Rightarrow> ISymbol" where
  "toSymbol e current table item =
     \<lparr>symbol_document = sym_filepath table,
      symbol_path = env_getDocumentPath e current (sym_document table),
      symbol_info = item\<rparr>"

section \<open>Facts about the string methods\<close>

lemma splitAtFirst_prefix:
  "prefix pat s \<Longrightarrow> splitAtFirst pat s = Some ([], drop (length pat) s)"
  by (cases s) auto

lemma js_replace_prefix:
  "prefix pat s \<Longrightarrow>
     js_replace s pat rep = getSubstitution pat [] (drop (length pat) s) rep @ drop (length pat) s"
  by (simp add: js_replace_def splitAtFirst_prefix)

lemma getSubstitution_plain:
  "plainReplacement rep \<Longrightarrow> getSubstitution m b a rep = rep"
  by (induction m b a rep rule: getSubstitution.induct) auto

lemma find_first_match:
  "\<forall>s\<in>set pre. \<not> P s \<Longrightarrow> P m \<Longrightarrow> find P (pre @ m # post) = Some m"
  by (induction pre) auto

lemma find_no_match:
  "\<forall>s\<in>set xs. \<not> P s \<Longrightarrow> find P xs = None"
  by (induction xs) auto

lemma matchingShorthand_none:
  "\<forall>s\<in>set (aliasList cfg). \<not> prefix (sh_alias s) p \<Longrightarrow> matchingShorthand p (Some cfg) = None"
  by (auto simp: matchingShorthand_def aliasList_def find_no_match split: option.splits)

lemma matchingShorthand_first:
  "aliasList cfg = pre @ m # post \<Longrightarrow> \<forall>s\<in>set pre. \<not> prefix (sh_alias s) p \<Longrightarrow>
   prefix (sh_alias m) p \<Longrightarrow> matchingShorthand p (Some cfg) = Some m"
  by (auto simp: matchingShorthand_def aliasList_def find_first_match split: option.splits)

lemma resolveAliasedPath_plain:
  "c = None \<or> (\<exists>cfg. c = Some cfg \<and> (\<forall>s\<in>set (aliasList cfg). \<not> prefix (sh_alias s) p)) \<Longrightarrow>
   resolveAliasedPath cwd p f c = resolve cwd [dirname f, p]"
  by (auto simp: resolveAliasedPath_def matchingShorthand_none)

lemma resolveAliasedPath_aliased:
  assumes "aliasList cfg = pre @ m # post"
    and "\<forall>s\<in>set pre. \<not> prefix (sh_alias s) p"
    and "prefix (sh_alias m) p"
    and "sh_paths m = cand # rest"
    and "plainReplacement cand"
  shows "resolveAliasedPath cwd p f (Some cfg) =
           resolve cwd [dirname (ts_filepath cfg), cand @ drop (length (sh_alias m)) p]"
proof -
  have "matchingShorthand p (Some cfg) = Some m"
    using assms(1-3) by (rule matchingShorthand_first)
  moreover have "js_replace p (sh_alias m) (firstPathText (sh_paths m)) =
      cand @ drop (length (sh_alias m)) p"
    using assms(3-5) by (simp add: js_replace_prefix firstPathText_def getSubstitution_plain)
  ultimately show ?thesis
    by (simp add: resolveAliasedPath_def)
qed

text \<open>
  The order of the aliases and the directory of the resolution. Without a config, or
  when no alias of the config is a prefix of the import path, the import path is resolved
  against the directory of the importing file. Otherwise the first alias in declaration
  order that is a prefix is taken, and when its first candidate is a text without
  replacement patterns, the import path with the alias prefix replaced by that candidate
  is resolved against the directory of the config file.
\<close>

lemma resolveAliasedPath_first_match:
  "((c = None \<or> (\<exists>cfg. c = Some cfg \<and> (\<forall>s\<in>set (aliasList cfg). \<not> prefix (sh_alias s) p))) \<longrightarrow>
      resolveAliasedPath cwd p f c = resolve cwd [dirname f, p])
   \<and> (\<forall>cfg pre m post cand rest.
        c = Some cfg \<and> aliasList cfg = pre @ m # post
        \<and> (\<forall>s\<in>set pre. \<not> prefix (sh_alias s) p) \<and> prefix (sh_alias m) p
        \<and> sh_paths m = cand # rest \<and> plainReplacement cand \<longrightarrow>
        resolveAliasedPath cwd p f c =
          resolve cwd [dirname (ts_filepath cfg), cand @ drop (length (sh_alias m)) p])
   \<and> resolveAliasedPath cwd ''@ui/button'' f
        (Some \<lparr>ts_filepath = t,
               ts_paths = Some (parsePathEntries
                 [(''@ui/*'', [''src/ui/'']), (''@/*'', [''src/''])])\<rparr>) =
       resolve cwd [dirname t, ''src/ui/button'']"
proof (intro conjI allI impI)
  assume "c = None \<or> (\<exists>cfg. c = Some cfg \<and> (\<forall>s\<in>set (aliasList cfg). \<not> prefix (sh_alias s) p))"
  then show "resolveAliasedPath cwd p f c = resolve cwd [dirname f, p]"
    by (rule resolveAliasedPath_plain)
next
  fix cfg pre m post cand rest
  assume "c = Some cfg \<and> aliasList cfg = pre @ m # post
        \<and> (\<forall>s\<in>set pre. \<not> prefix (sh_alias s) p) \<and> prefix (sh_alias m) p
        \<and> sh_paths m = cand # rest \<and> plainReplacement cand"
  then show "resolveAliasedPath cwd p f c =
          resolve cwd [dirname (ts_filepath cfg), cand @ drop (length (sh_alias m)) p]"
    using resolveAliasedPath_aliased [of cfg pre m post p cand rest cwd f] by simp
next
  show "resolveAliasedPath cwd ''@ui/button'' f
        (Some \<lparr>ts_filepath = t,
               ts_paths = Some (parsePathEntries
                 [(''@ui/*'', [''src/ui/'']), (''@/*'', [''src/''])])\<rparr>) =
       resolve cwd [dirname t, ''src/ui/button'']"
    by (simp add: resolveAliasedPath_def matchingShorthand_def parsePathEntries_def
        stripWildcard_def js_replace_def firstPathText_def dollar_def)
qed

section \<open>Facts about the config operations\<close>

lemma fsPathToUri_nonempty: "fsPathToUri e p \<noteq> []"
  by (simp add: fsPathToUri_def fileUri_def)

lemma addTsConfigStep_configs:
  "tsConfigs (foldl (addTsConfigStep e t u) st ks) = tsConfigs st"
  by (induction ks arbitrary: st)
     (auto simp: addTsConfigStep_def associate_def desociate_def)

lemma addTsConfigStep_documents:
  "scssDocuments (foldl (addTsConfigStep e t u) st ks) = scssDocuments st"
  by (induction ks arbitrary: st)
     (auto simp: addTsConfigStep_def associate_def desociate_def)

lemma deleteTsConfigStep_documents:
  "scssDocuments (foldl (deleteTsConfigStep e t u) st ks) = scssDocuments st"
  by (induction ks arbitrary: st)
     (auto simp: deleteTsConfigStep_def associate_def desociate_def split: option.splits)

lemma addTsConfigStep_associations:
  assumes "u \<noteq> []"
  shows "map_of (tsConfigsAssociations (foldl (addTsConfigStep e t u) st ks)) k =
     (if k \<in> set ks \<and> isDescendant e k (dirname t) then Some u
      else map_of (tsConfigsAssociations st) k)"
  using assms
  by (induction ks arbitrary: st)
     (auto simp: addTsConfigStep_def associate_def update_conv')

lemma addTsConfigFile_Inr:
  assumes "addTsConfigFile e st t = Some (Inr st')"
  shows "\<exists>tsConfig. parseTsConfig e t = Some (Inr tsConfig)
    \<and> st' = foldl (addTsConfigStep e t (fsPathToUri e t))
               (setTsConfig st (fsPathToUri e t) tsConfig)
               (storage_keys (setTsConfig st (fsPathToUri e t) tsConfig))"
proof -
  from assms obtain r where r: "parseTsConfig e t = Some r"
    and s: "(case r of Inl err \<Rightarrow> Inl err
             | Inr tsConfig \<Rightarrow>
               (let tsConfigUri = fsPathToUri e t;
                    st1 = setTsConfig st tsConfigUri tsConfig
                in Inr (foldl (addTsConfigStep e t tsConfigUri) st1 (storage_keys st1)))) = Inr st'"
    by (auto simp: addTsConfigFile_def bind_eq_Some_conv)
  show ?thesis
  proof (cases r)
    case (Inl err)
    with s show ?thesis by simp
  next
    case (Inr tsConfig)
    with s r show ?thesis by (auto simp: Let_def)
  qed
qed

lemma update_present_keys:
  "map_of al k = Some v \<Longrightarrow> map fst (AList.update k v' al) = map fst al"
  by (auto simp: update_keys dest: map_of_SomeD intro: rev_image_eqI)

lemma updateTsConfigFile_Inr:
  assumes "updateTsConfigFile e st t = Some (Inr st')"
  shows "\<exists>newTsConfig. parseTsConfig e t = Some (Inr newTsConfig)
    \<and> st' = (case getTsConfig st (fsPathToUri e t) of
               None \<Rightarrow> st
             | Some old \<Rightarrow> st\<lparr>tsConfigs := AList.update (fsPathToUri e t)
                        (old\<lparr>ts_paths := ts_paths newTsConfig\<rparr>) (tsConfigs st)\<rparr>)"
proof -
  from assms obtain r where r: "parseTsConfig e t = Some r"
    and s: "(case r of Inl err \<Rightarrow> Inl err
             | Inr newTsConfig \<Rightarrow>
               (let tsConfigUri = fsPathToUri e t
                in case getTsConfig st tsConfigUri of
                     None \<Rightarrow> Inr st
                   | Some oldTsConfig \<Rightarrow>
                       Inr (st\<lparr>tsConfigs :=
                              AList.update tsConfigUri
                                (oldTsConfig\<lparr>ts_paths := ts_paths newTsConfig\<rparr>)
                                (tsConfigs st)\<rparr>))) = Inr st'"
    by (auto simp: updateTsConfigFile_def bind_eq_Some_conv)
  show ?thesis
  proof (cases r)
    case (Inl err)
    with s show ?thesis by simp
  next
    case (Inr newTsConfig)
    with s r show ?thesis
      by (cases "getTsConfig st (fsPathToUri e t)") (auto simp: Let_def)
  qed
qed

text \<open>
  What \<open>addTsConfigFile\<close> does achieve: the config is stored, the document keys stay, and
  every key that \<open>isDescendant\<close> accepts for the directory of the config is associated
  with it.
\<close>

lemma addTsConfigFile_associates_accepted_keys:
  assumes "addTsConfigFile e st t = Some (Inr st')"
  shows "\<exists>tsConfig. parseTsConfig e t = Some (Inr tsConfig)
    \<and> getTsConfig st' (fsPathToUri e t) = Some tsConfig
    \<and> storage_keys st' = storage_keys st
    \<and> (\<forall>k \<in> set (storage_keys st). isDescendant e k (dirname t) \<longrightarrow>
          map_of (tsConfigsAssociations st') k = Some (fsPathToUri e t)
          \<and> getAssociatedTsConfig st' k = Some tsConfig)"
proof -
  let ?u = "fsPathToUri e t"
  from addTsConfigFile_Inr [OF assms] obtain tsConfig
    where p: "parseTsConfig e t = Some (Inr tsConfig)"
      and st': "st' = foldl (addTsConfigStep e t ?u) (setTsConfig st ?u tsConfig)
               (storage_keys (setTsConfig st ?u tsConfig))"
    by blast
  have cfg: "tsConfigs st' = AList.update ?u tsConfig (tsConfigs st)"
    by (simp add: st' addTsConfigStep_configs setTsConfig_def)
  have keys1: "storage_keys (setTsConfig st ?u tsConfig) = storage_keys st"
    by (simp add: storage_keys_def setTsConfig_def)
  have keys: "storage_keys st' = storage_keys st"
    by (simp add: st' storage_keys_def addTsConfigStep_documents setTsConfig_def)
  have get: "getTsConfig st' ?u = Some tsConfig"
    by (simp add: getTsConfig_def cfg update_conv')
  have assoc: "map_of (tsConfigsAssociations st') k = Some ?u"
    if "k \<in> set (storage_keys st)" "isDescendant e k (dirname t)" for k
    using that keys1
    by (simp add: st' addTsConfigStep_associations [OF fsPathToUri_nonempty])
  have "getAssociatedTsConfig st' k = Some tsConfig"
    if "k \<in> set (storage_keys st)" "isDescendant e k (dirname t)" for k
    using assoc [OF that] get
    by (simp add: getAssociatedTsConfig_def getTsConfig_def fsPathToUri_nonempty)
  with assoc p get keys show ?thesis by blast
qed

section \<open>Facts about the walk to the parent directories\<close>

lemma isDescendant_self: "\<not> isDescendant e p p"
  by (simp add: isDescendant_def relative_def)

lemma findInParentsLoop_chain:
  "(dirname ^^ n) dir = limit \<Longrightarrow> limit \<notin> set (ancestorDirs n dir) \<Longrightarrow>
   findInParentsLoop e f dir limit =
     Some (map_option (\<lambda>d. join [d, f])
            (find (\<lambda>d. fileExists e (join [d, f])) (ancestorDirs n dir)))"
proof (induction n arbitrary: dir)
  case 0
  then show ?case by (subst findInParentsLoop.simps) simp
next
  case (Suc n)
  from Suc.prems have ne: "dir \<noteq> limit" by auto
  from Suc.prems have chain: "(dirname ^^ n) (dirname dir) = limit"
    by (simp add: funpow_swap1)
  from Suc.prems have notin: "limit \<notin> set (ancestorDirs n (dirname dir))" by simp
  show ?case
    using ne Suc.IH [OF chain notin]
    by (subst findInParentsLoop.simps) simp
qed

lemma findInParentsLoop_stuck:
  assumes "dirname dir = dir" and "dir \<noteq> limit" and "\<not> fileExists e (join [dir, f])"
  shows "findInParentsLoop e f dir limit = None"
proof (rule ccontr)
  assume "findInParentsLoop e f dir limit \<noteq> None"
  then obtain y where y: "findInParentsLoop e f dir limit = Some y" by auto
  have "\<not> (e = e \<and> f = f \<and> dir = dir \<and> limit = limit)"
  proof (rule findInParentsLoop.raw_induct
      [where P = "\<lambda>e' f' d l y'. \<not> (e' = e \<and> f' = f \<and> d = dir \<and> l = limit)", OF _ y])
    fix loop e' f' d l r
    assume IH: "\<And>e'' f'' d' l' y'. loop e'' f'' d' l' = Some y' \<Longrightarrow>
        \<not> (e'' = e \<and> f'' = f \<and> d' = dir \<and> l' = limit)"
      and body: "(if d \<noteq> l then
          (if fileExists e' (join [d, f']) then Some (Some (join [d, f']))
           else loop e' f' (dirname d) l)
        else Some None) = Some r"
    show "\<not> (e' = e \<and> f' = f \<and> d = dir \<and> l = limit)"
    proof
      assume eq: "e' = e \<and> f' = f \<and> d = dir \<and> l = limit"
      with body assms have "loop e f dir limit = Some r" by simp
      from IH [OF this] show False by simp
    qed
  qed
  then show False by simp
qed

text \<open>
  What the walk does when the texts meet. The call returns \<open>undefined\<close> when \<open>dir\<close> is
  the text \<open>limit\<close> or fails the descendant test. When \<open>dir\<close> passes the test and taking
  the parent of \<open>dir\<close> \<open>n\<close> times gives the text \<open>limit\<close> for the first time, the call
  looks into the \<open>n\<close> directories from \<open>dir\<close> upwards and returns the first file found.
\<close>

lemma findFileInParents_text_chain:
  "((dir = limit \<or> \<not> isDescendant e dir limit \<or> isDescendant e limit dir) \<longrightarrow>
      findFileInParents e filename dir limit = Some None)
   \<and> (isDescendant e dir limit \<and> \<not> isDescendant e limit dir
       \<and> (dirname ^^ n) dir = limit \<and> limit \<notin> set (ancestorDirs n dir) \<longrightarrow>
      findFileInParents e filename dir limit =
        Some (map_option (\<lambda>d. join [d, filename])
               (find (\<lambda>d. fileExists e (join [d, filename])) (ancestorDirs n dir))))"
proof (intro conjI impI)
  assume "dir = limit \<or> \<not> isDescendant e dir limit \<or> isDescendant e limit dir"
  then show "findFileInParents e filename dir limit = Some None"
    by (auto simp: findFileInParents_def isDescendant_self)
next
  assume a: "isDescendant e dir limit \<and> \<not> isDescendant e limit dir
       \<and> (dirname ^^ n) dir = limit \<and> limit \<notin> set (ancestorDirs n dir)"
  then have "findInParentsLoop e filename dir limit =
      Some (map_option (\<lambda>d. join [d, filename])
             (find (\<lambda>d. fileExists e (join [d, filename])) (ancestorDirs n dir)))"
    by (intro findInParentsLoop_chain) simp_all
  with a show "findFileInParents e filename dir limit =
      Some (map_option (\<lambda>d. join [d, filename])
             (find (\<lambda>d. fileExists e (join [d, filename])) (ancestorDirs n dir)))"
    by (simp add: findFileInParents_def)
qed

section \<open>Facts about the search for a definition\<close>

lemma samePosition_eq: "samePosition a b = (a = Some b)"
  by (cases a) (auto simp: samePosition_def)

lemma foldl_getSymbolsItem:
  "foldl (getSymbolsItem table (env_getDocumentPath e current (sym_document table)) identifier)
     acc items =
   acc @ map (toSymbol e current table) (filter (matchesIdentifier identifier) items)"
  by (induction items arbitrary: acc)
     (auto simp: getSymbolsItem_def matchesIdentifier_def samePosition_eq toSymbol_def)

lemma symbolsOfType_entriesOfKind: "symbolsOfType table k = entriesOfKind k table"
  by (cases k) (simp_all add: symbolsOfType_def)

lemma getSymbolsDocument_eq:
  "getSymbolsDocument e identifier current acc table =
   acc @ map (toSymbol e current table) (matchingEntries identifier table)"
  by (cases "id_type identifier")
     (simp_all add: getSymbolsDocument_def Let_def foldl_getSymbolsItem matchingEntries_def
        symbolsOfType_entriesOfKind)

lemma foldl_getSymbolsDocument:
  "foldl (getSymbolsDocument e identifier current) acc tables =
   acc @ concat (map (\<lambda>table. map (toSymbol e current table) (matchingEntries identifier table))
                   tables)"
  by (induction tables arbitrary: acc) (simp_all add: getSymbolsDocument_eq)

lemma getSymbols_candidates:
  "getSymbols e (getSymbolsRelatedToDocument st current) identifier current =
   map (\<lambda>(table, item). toSymbol e current table item) (candidateEntries st current identifier)"
proof -
  have eq: "(\<lambda>item. sym_document item \<noteq> Some current \<or> sym_filepath item \<noteq> Some current) =
      (\<lambda>table. \<not> (sym_document table = Some current \<and> sym_filepath table = Some current))"
    by auto
  show ?thesis
    by (simp add: getSymbols_def foldl_getSymbolsDocument getSymbolsRelatedToDocument_def
        getSymbolsCollection_def candidateEntries_def map_concat comp_def eq)
qed

lemma goIdentifier_parsed:
  "goIdentifier e document (parseDocument e document) st identifier =
   (storage_set st (doc_uri document) (parseDocument e document),
    case candidateEntries (storage_set st (doc_uri document) (parseDocument e document))
           (uriToFsPath e (doc_uri document)) identifier of
      [] \<Rightarrow> Inr None
    | (table, item) # _ \<Rightarrow>
        (case sym_filepath table of
           None \<Rightarrow> Inr None
         | Some d \<Rightarrow>
             (case info_position item of
                None \<Rightarrow> Inl TypeError
              | Some pos \<Rightarrow> Inr (Some (locationOfEntry e d pos item)))))"
proof -
  have doc: "sym_document (parseDocument e document) \<noteq> None"
    by (simp add: parseDocument_def Let_def)
  show ?thesis
    by (simp add: goIdentifier_def Let_def doc getSymbols_candidates locationOfEntry_def
        toSymbol_def split: list.splits prod.splits option.splits)
qed

text \<open>The classification of the place of the query, and what \<open>goDefinition\<close> does with it.\<close>

lemma goDefinition_classified:
  assumes "identifierUnderCursor e document offset = Some identifier"
  shows "goDefinition e document offset st =
     goIdentifier e document (parseDocument e document) st identifier"
proof -
  from assms obtain hoverNode parent where h: "env_nodeAtOffset e document offset = Some hoverNode"
    and p: "node_parent hoverNode = Some parent"
    by (auto simp: identifierUnderCursor_def split: option.splits)
  show ?thesis
  proof (cases "node_type hoverNode = VariableName")
    case True
    with assms h p show ?thesis
      by (auto simp: identifierUnderCursor_def goDefinition_def Let_def split: if_splits)
  next
    case notVariable: False
    show ?thesis
    proof (cases "node_type hoverNode = Identifier")
      case False
      with assms h p notVariable show ?thesis
        by (simp add: identifierUnderCursor_def)
    next
      case True
      show ?thesis
      proof (cases "isCall parent")
        case call: True
        have "walkUp (Some hoverNode) 0 = Inr parent"
          using True call p by (auto simp: isCall_def)
        with assms h p True call show ?thesis
          by (auto simp: identifierUnderCursor_def goDefinition_def Let_def callIdentifier_def
              isCall_def)
      next
        case noCall: False
        with assms h p True obtain grandparent where g: "node_parent parent = Some grandparent"
          and gc: "isCall grandparent"
          and ident: "identifier = callIdentifier e document grandparent"
          by (auto simp: identifierUnderCursor_def split: option.splits if_splits)
        have "walkUp (Some hoverNode) 0 = Inr grandparent"
          using True noCall p g by (auto simp: isCall_def numeral_2_eq_2)
        with h True gc ident show ?thesis
          by (auto simp: goDefinition_def Let_def callIdentifier_def isCall_def)
      qed
    qed
  qed
qed

lemma parent_smaller: "node_parent p = Some q \<Longrightarrow> size q < size p"
  by (cases p) auto

lemma walkUp_result: "walkUp n i = Inr node \<Longrightarrow> i \<le> 2 \<Longrightarrow>
    (\<exists>m. n = Some m \<and> (node = m \<or> node_parent m = Some node \<and> \<not> isCall m
       \<or> (\<exists>p. node_parent m = Some p \<and> node_parent p = Some node \<and> \<not> isCall m \<and> \<not> isCall p
             \<and> i = 0)))"
proof (induction n i rule: walkUp.induct)
  case (1 i)
  then show ?case by simp
next
  case (2 m i)
  show ?case
  proof (cases "node_type m \<noteq> MixinReference \<and> node_type m \<noteq> Function \<and> i \<noteq> 2")
    case False
    with "2.prems" show ?thesis by auto
  next
    case True
    with "2.prems" have w: "walkUp (node_parent m) (Suc i) = Inr node" and i: "Suc i \<le> 2"
      by auto
    from "2.IH" [OF True w i] obtain p where p: "node_parent m = Some p"
      and r: "node = p \<or> node_parent p = Some node \<and> \<not> isCall p
        \<or> (\<exists>q. node_parent p = Some q \<and> node_parent q = Some node \<and> \<not> isCall p \<and> \<not> isCall q
              \<and> Suc i = 0)"
      by blast
    from True have m: "\<not> isCall m" by (simp add: isCall_def)
    from r consider "node = p" | "node_parent p = Some node" "\<not> isCall p" by auto
    then show ?thesis
    proof cases
      case 1
      with p m show ?thesis by auto
    next
      case 2
      have "i = 0"
      proof (rule ccontr)
        assume "i \<noteq> 0"
        with i have "Suc i = 2" by simp
        with w p have "node = p" by simp
        with 2 parent_smaller [of p p] show False by simp
      qed
      with 2 p m show ?thesis by auto
    qed
  qed
qed

lemma goDefinition_unclassified:
  assumes "identifierUnderCursor e document offset = None"
  shows "fst (goDefinition e document offset st) = st
    \<and> snd (goDefinition e document offset st) \<noteq> Inr (Some location)"
proof (cases "env_nodeAtOffset e document offset")
  case None
  then show ?thesis by (simp add: goDefinition_def)
next
  case (Some hoverNode)
  show ?thesis
  proof (cases "node_type hoverNode = VariableName")
    case True
    with assms Some show ?thesis
      by (auto simp: identifierUnderCursor_def goDefinition_def Let_def
          split: option.splits if_splits)
  next
    case notVariable: False
    show ?thesis
    proof (cases "node_type hoverNode = Identifier")
      case False
      with Some notVariable show ?thesis by (simp add: goDefinition_def Let_def)
    next
      case True
      show ?thesis
      proof (cases "walkUp (Some hoverNode) 0")
        case (Inl err)
        with Some True show ?thesis by (simp add: goDefinition_def Let_def)
      next
        case (Inr node)
        have "\<not> isCall node"
        proof
          assume call: "isCall node"
          from walkUp_result [OF Inr] True call
          consider "node_parent hoverNode = Some node"
            | p where "node_parent hoverNode = Some p" "node_parent p = Some node" "\<not> isCall p"
            by (auto simp: isCall_def)
          then show False
            using assms Some True call
            by cases (auto simp: identifierUnderCursor_def)
        qed
        with Some True Inr show ?thesis
          by (simp add: goDefinition_def isCall_def Let_def)
      qed
    qed
  qed
qed

lemma goDefinition_storage:
  "fst (goDefinition e document offset st) = st
   \<or> fst (goDefinition e document offset st) =
       storage_set st (doc_uri document) (parseDocument e document)"
proof (cases "identifierUnderCursor e document offset")
  case None
  then show ?thesis by (simp add: goDefinition_unclassified)
next
  case (Some asked)
  then show ?thesis by (simp add: goDefinition_classified goIdentifier_parsed)
qed

text \<open>Every table of a reachable storage is complete.\<close>

lemma completeTable_parseDocument: "completeTable (parseDocument e document)"
  by (simp add: completeTable_def parseDocument_def findDocumentSymbols_def Let_def
      list_all_iff)

lemma completeTable_stored:
  "completeTable ((parseDocument e document)\<lparr>sym_filepath := Some filepath\<rparr>)"
  using completeTable_parseDocument [of e document] by (simp add: completeTable_def)

lemma storage_values_set:
  "set (storage_values (storage_set st k v)) \<subseteq> insert v (set (storage_values st))"
proof -
  have "set (AList.update k v al) \<subseteq> insert (k, v) (set al)" for al :: "(string \<times> IDocumentSymbols) list"
    by (induction al) auto
  then show ?thesis
    by (fastforce simp: storage_values_def storage_set_def)
qed

lemma storage_values_delete:
  "set (storage_values (storage_delete st k)) \<subseteq> set (storage_values st)"
proof -
  have "set (AList.delete k al) \<subseteq> set al" for al :: "(string \<times> IDocumentSymbols) list"
    by (induction al) auto
  then show ?thesis
    by (fastforce simp: storage_values_def storage_delete_def)
qed

lemma candidateEntries_member:
  assumes "(table, item) \<in> set (candidateEntries st current identifier)"
  shows "table \<in> set (storage_values st) \<and> item \<in> set (entriesOfKind (id_type identifier) table)"
  using assms by (auto simp: candidateEntries_def matchingEntries_def)

lemma completeTable_position:
  assumes "completeTable table" and "item \<in> set (entriesOfKind k table)"
  shows "info_position item \<noteq> None"
  using assms by (cases k) (auto simp: completeTable_def list_all_iff)

section \<open>Facts about the scan\<close>

lemma set_foldl_setAdd: "set (foldl setAdd s xs) = set s \<union> set xs"
  by (induction xs arbitrary: s) (auto simp: setAdd_def)

lemma staticImports_in_targets:
  assumes "readFile e filepath = Inr content"
  shows "set (staticImports (parseDocument e \<lparr>doc_uri = fileUri e filepath, doc_text = content\<rparr>))
           \<subseteq> allImportTargets e"
proof -
  from assms have "map_of (env_files e) filepath = Some (File content)"
    by (auto simp: readFile_def split: option.splits fs_node.splits)
  then have "(filepath, File content) \<in> set (env_files e)"
    by (rule map_of_SomeD)
  then show ?thesis
    by (force simp: allImportTargets_def)
qed

lemma foldl_setAdd_append: "\<exists>ys. foldl setAdd s xs = s @ ys"
proof (induction xs arbitrary: s)
  case Nil
  show ?case by simp
next
  case (Cons x xs)
  from Cons [of "setAdd s x"] obtain ys where ys: "foldl setAdd (setAdd s x) xs = setAdd s x @ ys"
    by blast
  show ?case
  proof (cases "x \<in> set s")
    case True
    then have "setAdd s x = s" by (simp add: setAdd_def)
    with ys show ?thesis by simp
  next
    case False
    then have "setAdd s x = s @ [x]" by (simp add: setAdd_def)
    with ys show ?thesis by simp
  qed
qed

lemma take_foldl_setAdd: "n \<le> length s \<Longrightarrow> take n (foldl setAdd s xs) = take n s"
  using foldl_setAdd_append [of s xs] by auto

lemma storage_get_delete:
  "storage_get (storage_delete st k) k' = (if k' = k then None else storage_get st k')"
  by (simp add: storage_get_def storage_delete_def delete_conv')

lemma storage_get_set:
  "storage_get (storage_set st k v) k' = (if k' = k then Some v else storage_get st k')"
  by (simp add: storage_get_def storage_set_def update_conv')

text \<open>
  Absolute paths keep their slash in front when normalised, so \<open>URI.file\<close> adds none:
  when the encoding tells the paths of a set apart, so do their URIs.
\<close>

lemma normalize_absolute: "isAbsolute p \<Longrightarrow> prefix ''/'' (normalize p)"
  by (auto simp: normalize_def isAbsolute_def Let_def slash_def)

lemma absolute_paths_distinct_uris:
  assumes "\<forall>p \<in> S. isAbsolute p" and "inj_on (env_uriEncode e) (normalize ` S)"
  shows "inj_on (fileUri e) (normalize ` S)"
proof (rule inj_onI)
  fix x y
  assume x: "x \<in> normalize ` S" and y: "y \<in> normalize ` S" and eq: "fileUri e x = fileUri e y"
  from x y assms(1) have "prefix ''/'' x" "prefix ''/'' y"
    by (auto simp: normalize_absolute)
  with eq have "env_uriEncode e x = env_uriEncode e y"
    by (simp add: fileUri_def)
  with assms(2) x y show "x = y"
    by (auto dest: inj_onD)
qed

lemma scanLoop_missing_removed:
  assumes "inj_on (fileUri e) (normalize ` S) \<and> D \<in> S \<and> allImportTargets e \<subseteq> S \<and> set iterator \<subseteq> S"
    and "\<not> fileExists e (normalize D)"
    and "D \<in> set (take i iterator) \<longrightarrow> storage_get st (fileUri e (normalize D)) = None"
    and "D \<in> set (scan_visited (scanLoop e settings iterator i st))"
  shows "storage_get (scan_storage (scanLoop e settings iterator i st)) (fileUri e (normalize D)) = None"
  using assms
proof (induction e settings iterator i st rule: scanLoop.induct)
  case (1 e settings iterator i st)
  let ?uD = "fileUri e (normalize D)"
  show ?case
  proof (cases "length iterator \<le> i")
    case True
    with "1.prems" show ?thesis
      by (subst scanLoop.simps, subst (asm) (2) scanLoop.simps) simp
  next
    case False
    then have i: "i < length iterator" by simp
    let ?filepath = "normalize (iterator ! i)"
    let ?uri = "fileUri e ?filepath"
    have takeSuc: "take (Suc i) iterator = take i iterator @ [iterator ! i]"
      using i by (simp add: take_Suc_conv_app_nth)
    show ?thesis
    proof (cases "fileExists e ?filepath")
      case notExists: False
      have inv: "D \<in> set (take (Suc i) iterator) \<longrightarrow>
          storage_get (storage_delete st ?uri) ?uD = None"
        using "1.prems"(3) by (auto simp: takeSuc storage_get_delete)
      have visited: "D \<in> set (scan_visited (scanLoop e settings iterator (Suc i)
          (storage_delete st ?uri)))"
        using "1.prems"(4) False notExists by (subst (asm) scanLoop.simps) (simp add: Let_def)
      have "storage_get (scan_storage (scanLoop e settings iterator (Suc i)
          (storage_delete st ?uri))) ?uD = None"
        using "1.IH"(1) [OF False refl refl notExists "1.prems"(1) "1.prems"(2) inv visited] .
      then show ?thesis
        using False notExists by (subst scanLoop.simps) (simp add: Let_def)
    next
      case exists: True
      then have neq: "D \<noteq> iterator ! i" using "1.prems"(2) by auto
      have uneq: "?uri \<noteq> ?uD"
      proof
        assume eq: "?uri = ?uD"
        from "1.prems"(1) nth_mem [OF i] have "?filepath \<in> normalize ` S"
          "normalize D \<in> normalize ` S"
          by auto
        with "1.prems"(1) eq have "?filepath = normalize D"
          by (auto dest: inj_onD)
        with exists "1.prems"(2) show False by simp
      qed
      show ?thesis
      proof (cases "readFile e ?filepath")
        case (Inl err)
        from "1.prems"(4) have "D \<in> set (take (Suc i) iterator)"
          using False exists Inl by (subst (asm) scanLoop.simps) (simp add: Let_def)
        with neq have "D \<in> set (take i iterator)" by (simp add: takeSuc)
        with "1.prems"(3) show ?thesis
          using False exists Inl by (subst scanLoop.simps) (simp add: Let_def)
      next
        case (Inr content)
        let ?symbols = "parseDocument e \<lparr>doc_uri = ?uri, doc_text = content\<rparr>"
        let ?stored = "?symbols\<lparr>sym_filepath := Some ?filepath\<rparr>"
        let ?st' = "storage_set st ?uri ?stored"
        show ?thesis
        proof (cases "scanImportedFiles settings")
          case noImports: False
          have inv: "D \<in> set (take (Suc i) iterator) \<longrightarrow> storage_get ?st' ?uD = None"
            using "1.prems"(3) neq uneq by (auto simp: takeSuc storage_get_set)
          have visited: "D \<in> set (scan_visited (scanLoop e settings iterator (Suc i) ?st'))"
            using "1.prems"(4) False exists Inr noImports
            by (subst (asm) scanLoop.simps) (simp add: Let_def)
          have "storage_get (scan_storage (scanLoop e settings iterator (Suc i) ?st')) ?uD = None"
            using "1.IH"(2) [OF False refl refl _ Inr refl refl refl _ "1.prems"(1) "1.prems"(2)
                inv visited] exists noImports by simp
          then show ?thesis
            using False exists Inr noImports by (subst scanLoop.simps) (simp add: Let_def)
        next
          case withImports: True
          let ?iterator' = "foldl setAdd iterator (staticImports ?symbols)"
          have tk: "take (Suc i) ?iterator' = take (Suc i) iterator"
            using i by (simp add: take_foldl_setAdd)
          have "set (staticImports ?symbols) \<subseteq> allImportTargets e"
            using Inr by (rule staticImports_in_targets)
          with "1.prems"(1) have sub: "inj_on (fileUri e) (normalize ` S) \<and> D \<in> S
              \<and> allImportTargets e \<subseteq> S \<and> set ?iterator' \<subseteq> S"
            by (auto simp: set_foldl_setAdd)
          have inv: "D \<in> set (take (Suc i) ?iterator') \<longrightarrow> storage_get ?st' ?uD = None"
            unfolding tk using "1.prems"(3) neq uneq by (auto simp: takeSuc storage_get_set)
          have visited: "D \<in> set (scan_visited (scanLoop e settings ?iterator' (Suc i) ?st'))"
            using "1.prems"(4) False exists Inr withImports
            by (subst (asm) scanLoop.simps) (simp add: Let_def)
          have "storage_get (scan_storage (scanLoop e settings ?iterator' (Suc i) ?st')) ?uD = None"
            using "1.IH"(3) [OF False refl refl _ Inr refl refl refl _ sub "1.prems"(2)
                inv visited] exists withImports by simp
          then show ?thesis
            using False exists Inr withImports by (subst scanLoop.simps) (simp add: Let_def)
        qed
      qed
    qed
  qed
qed

lemma distinct_setAdd: "distinct s \<Longrightarrow> distinct (setAdd s x)"
  by (simp add: setAdd_def)

lemma distinct_foldl_setAdd: "distinct s \<Longrightarrow> distinct (foldl setAdd s xs)"
  by (induction xs arbitrary: s) (simp_all add: distinct_setAdd)

lemma distinct_newSet: "distinct (newSet xs)"
  by (simp add: newSet_def distinct_foldl_setAdd)

lemma set_newSet: "set (newSet xs) = set xs"
  by (simp add: newSet_def set_foldl_setAdd)

text \<open>An invariant of the set and the storage holds for what the loop returns.\<close>

lemma scanLoop_invariant:
  assumes "I iterator st"
    and "\<And>q s k. I q s \<Longrightarrow> I q (storage_delete s k)"
    and "\<And>q s k document filepath. I q s \<Longrightarrow>
           I q (storage_set s k ((parseDocument e document)\<lparr>sym_filepath := Some filepath\<rparr>))"
    and "\<And>q s xs. I q s \<Longrightarrow> set xs \<subseteq> allImportTargets e \<Longrightarrow> I (foldl setAdd q xs) s"
  shows "\<exists>q n. I q (scan_storage (scanLoop e settings iterator i st))
           \<and> scan_visited (scanLoop e settings iterator i st) = take n q"
  using assms(1,3,4)
proof (induction e settings iterator i st rule: scanLoop.induct)
  case (1 e settings iterator i st)
  note del = assms(2)
  note I0 = "1.prems"(1) and upd = "1.prems"(2) and add = "1.prems"(3)
  show ?case
  proof (cases "length iterator \<le> i")
    case True
    have "scan_visited (scanLoop e settings iterator i st) = take (length iterator) iterator"
      using True by (subst scanLoop.simps) simp
    moreover have "scan_storage (scanLoop e settings iterator i st) = st"
      using True by (subst scanLoop.simps) simp
    ultimately show ?thesis using I0 by metis
  next
    case False
    let ?filepath = "normalize (iterator ! i)"
    let ?uri = "fileUri e ?filepath"
    show ?thesis
    proof (cases "fileExists e ?filepath")
      case notExists: False
      have eq: "scanLoop e settings iterator i st =
          scanLoop e settings iterator (Suc i) (storage_delete st ?uri)"
        using False notExists by (subst scanLoop.simps) (simp add: Let_def)
      show ?thesis
        unfolding eq
        by (rule "1.IH"(1) [OF False refl refl notExists _ upd add]) (rule del, rule I0)
    next
      case exists: True
      show ?thesis
      proof (cases "readFile e ?filepath")
        case (Inl err)
        have "scan_visited (scanLoop e settings iterator i st) = take (Suc i) iterator"
          using False exists Inl by (subst scanLoop.simps) (simp add: Let_def)
        moreover have "scan_storage (scanLoop e settings iterator i st) = st"
          using False exists Inl by (subst scanLoop.simps) (simp add: Let_def)
        ultimately show ?thesis using I0 by metis
      next
        case (Inr content)
        let ?symbols = "parseDocument e \<lparr>doc_uri = ?uri, doc_text = content\<rparr>"
        let ?stored = "?symbols\<lparr>sym_filepath := Some ?filepath\<rparr>"
        let ?st' = "storage_set st ?uri ?stored"
        have I': "I iterator ?st'" by (rule upd) (rule I0)
        show ?thesis
        proof (cases "scanImportedFiles settings")
          case noImports: False
          have eq: "scanLoop e settings iterator i st = scanLoop e settings iterator (Suc i) ?st'"
            using False exists Inr noImports by (subst scanLoop.simps) (simp add: Let_def)
          show ?thesis
            unfolding eq
            using "1.IH"(2) [OF False refl refl _ Inr refl refl refl _ I' upd add] exists noImports
            by simp
        next
          case withImports: True
          let ?iterator' = "foldl setAdd iterator (staticImports ?symbols)"
          have eq: "scanLoop e settings iterator i st = scanLoop e settings ?iterator' (Suc i) ?st'"
            using False exists Inr withImports by (subst scanLoop.simps) (simp add: Let_def)
          have "set (staticImports ?symbols) \<subseteq> allImportTargets e"
            using Inr by (rule staticImports_in_targets)
          with I' have I'': "I ?iterator' ?st'" by (rule add)
          show ?thesis
            unfolding eq
            using "1.IH"(3) [OF False refl refl _ Inr refl refl refl _ I'' upd add] exists withImports
            by simp
        qed
      qed
    qed
  qed
qed

lemma scanLoop_visited_distinct:
  assumes "distinct iterator"
  shows "distinct (scan_visited (scanLoop e settings iterator i st))"
proof -
  have "\<exists>q n. distinct q \<and> scan_visited (scanLoop e settings iterator i st) = take n q"
    by (rule scanLoop_invariant [where I = "\<lambda>q s. distinct q"])
       (simp_all add: assms distinct_foldl_setAdd)
  then show ?thesis by auto
qed

lemma scanLoop_visited_subset:
  "set (scan_visited (scanLoop e settings iterator i st)) \<subseteq> set iterator \<union> allImportTargets e"
proof -
  have "\<exists>q n. set q \<subseteq> set iterator \<union> allImportTargets e
      \<and> scan_visited (scanLoop e settings iterator i st) = take n q"
    by (rule scanLoop_invariant [where I = "\<lambda>q s. set q \<subseteq> set iterator \<union> allImportTargets e"])
       (auto simp: set_foldl_setAdd)
  then obtain q n where "set q \<subseteq> set iterator \<union> allImportTargets e"
    and "scan_visited (scanLoop e settings iterator i st) = take n q" by blast
  then show ?thesis using set_take_subset [of n q] by auto
qed

lemma scanLoop_keys_distinct:
  assumes "distinct (storage_keys st)"
  shows "distinct (storage_keys (scan_storage (scanLoop e settings iterator i st)))"
proof -
  have "\<exists>q n. distinct (storage_keys (scan_storage (scanLoop e settings iterator i st)))
      \<and> scan_visited (scanLoop e settings iterator i st) = take n q"
    by (rule scanLoop_invariant [where I = "\<lambda>q s. distinct (storage_keys s)"])
       (use assms in \<open>simp_all add: storage_keys_def storage_delete_def storage_set_def
          distinct_update distinct_delete\<close>)
  then show ?thesis by blast
qed

lemma readFile_exists: "readFile e p = Inr c \<Longrightarrow> fileExists e p"
  by (auto simp: readFile_def fileExists_def split: option.splits)

lemma count_list_distinct: "distinct xs \<Longrightarrow> x \<in> set xs \<Longrightarrow> count_list xs x = 1"
  by (induction xs) auto

lemma storage_keys_set:
  "set (storage_keys (storage_set st k v)) = insert k (set (storage_keys st))"
  by (auto simp: storage_keys_def storage_set_def update_keys)

lemma storage_keys_set_distinct:
  "distinct (storage_keys st) \<Longrightarrow> distinct (storage_keys (storage_set st k v))"
  by (simp add: storage_keys_def storage_set_def distinct_update)

lemma scan_two_file_cycle:
  assumes na: "normalize a = a" and nb: "normalize b = b" and ab: "a \<noteq> b"
    and ra: "readFile e a = Inr ca" and rb: "readFile e b = Inr cb"
    and ia: "staticImports (parseDocument e \<lparr>doc_uri = fileUri e a, doc_text = ca\<rparr>) = [b]"
    and ib: "staticImports (parseDocument e \<lparr>doc_uri = fileUri e b, doc_text = cb\<rparr>) = [a]"
    and imp: "scanImportedFiles settings"
  shows "scanScssFiles e settings st [a] =
     \<lparr>scan_visited = [a, b], scan_error = None,
      scan_storage =
        storage_set
          (storage_set st (fileUri e a)
             ((parseDocument e \<lparr>doc_uri = fileUri e a, doc_text = ca\<rparr>)\<lparr>sym_filepath := Some a\<rparr>))
          (fileUri e b)
          ((parseDocument e \<lparr>doc_uri = fileUri e b, doc_text = cb\<rparr>)\<lparr>sym_filepath := Some b\<rparr>)\<rparr>"
proof -
  let ?va = "(parseDocument e \<lparr>doc_uri = fileUri e a, doc_text = ca\<rparr>)\<lparr>sym_filepath := Some a\<rparr>"
  let ?vb = "(parseDocument e \<lparr>doc_uri = fileUri e b, doc_text = cb\<rparr>)\<lparr>sym_filepath := Some b\<rparr>"
  let ?st1 = "storage_set st (fileUri e a) ?va"
  let ?st2 = "storage_set ?st1 (fileUri e b) ?vb"
  have ea: "fileExists e a" and eb: "fileExists e b"
    using ra rb by (auto intro: readFile_exists)
  have q1: "setAdd [a] b = [a, b]" using ab by (simp add: setAdd_def)
  have q2: "setAdd [a, b] a = [a, b]" by (simp add: setAdd_def)
  have s3: "scanLoop e settings [a, b] (Suc (Suc 0)) ?st2 =
      \<lparr>scan_visited = [a, b], scan_error = None, scan_storage = ?st2\<rparr>"
    by (subst scanLoop.simps) simp
  have s2: "scanLoop e settings [a, b] (Suc 0) ?st1 = scanLoop e settings [a, b] (Suc (Suc 0)) ?st2"
    by (subst scanLoop.simps) (simp add: nb eb rb ib imp q2 Let_def)
  have s1: "scanLoop e settings [a] 0 st = scanLoop e settings [a, b] (Suc 0) ?st1"
    by (subst scanLoop.simps) (simp add: na ea ra ia imp q1 Let_def)
  show ?thesis
    by (simp add: scanScssFiles_def newSet_def setAdd_def s1 s2 s3)
qed

lemma scan_delete_event:
  assumes "\<not> fileExists e (normalize D)"
  shows "scanScssFiles e settings st [D] =
     \<lparr>scan_visited = [D], scan_error = None,
      scan_storage = storage_delete st (fileUri e (normalize D))\<rparr>"
proof -
  have s2: "scanLoop e settings [D] (Suc 0) (storage_delete st (fileUri e (normalize D))) =
      \<lparr>scan_visited = [D], scan_error = None,
       scan_storage = storage_delete st (fileUri e (normalize D))\<rparr>"
    by (subst scanLoop.simps) simp
  have s1: "scanLoop e settings [D] 0 st =
      scanLoop e settings [D] (Suc 0) (storage_delete st (fileUri e (normalize D)))"
    using assms by (subst scanLoop.simps) (simp add: Let_def)
  show ?thesis
    by (simp add: scanScssFiles_def newSet_def setAdd_def s1 s2)
qed

lemma scanLoop_complete:
  assumes "\<forall>table \<in> set (storage_values st). completeTable table"
  shows "\<forall>table \<in> set (storage_values (scan_storage (scanLoop e settings iterator i st))).
           completeTable table"
proof -
  have "\<exists>q n. (\<forall>table \<in> set (storage_values (scan_storage (scanLoop e settings iterator i st))).
           completeTable table)
      \<and> scan_visited (scanLoop e settings iterator i st) = take n q"
  proof (rule scanLoop_invariant
      [where I = "\<lambda>q s. \<forall>table \<in> set (storage_values s). completeTable table"])
    show "\<forall>table \<in> set (storage_values st). completeTable table" by (rule assms)
  next
    fix q :: "string list" and s k
    assume "\<forall>table \<in> set (storage_values s). completeTable table"
    then show "\<forall>table \<in> set (storage_values (storage_delete s k)). completeTable table"
      using storage_values_delete [of s k] by blast
  next
    fix q :: "string list" and s k document filepath
    assume "\<forall>table \<in> set (storage_values s). completeTable table"
    then show "\<forall>table \<in> set (storage_values
        (storage_set s k ((parseDocument e document)\<lparr>sym_filepath := Some filepath\<rparr>))).
        completeTable table"
      using storage_values_set [of s k "(parseDocument e document)\<lparr>sym_filepath := Some filepath\<rparr>"]
        completeTable_stored [where e = e and document = document and filepath = filepath]
      by blast
  next
    fix q :: "string list" and s xs
    assume "\<forall>table \<in> set (storage_values s). completeTable table"
    then show "\<forall>table \<in> set (storage_values s). completeTable table" .
  qed
  then show ?thesis by blast
qed

section \<open>Facts about a query after a scan\<close>

lemma set_update_subset: "set (AList.update k v al) \<subseteq> insert (k, v) (set al)"
  by (induction al) auto

lemma set_delete_eq: "set (AList.delete k al) = {p \<in> set al. fst p \<noteq> k}"
  by (induction al) auto

lemma parseDocument_paths:
  "sym_document (parseDocument e document) = Some (uriToFsPath e (doc_uri document))"
  "sym_filepath (parseDocument e document) = Some (uriToFsPath e (doc_uri document))"
  by (simp_all add: parseDocument_def Let_def)

lemma candidateEntries_empty:
  assumes "\<forall>table \<in> set (storage_values st).
      \<not> (sym_document table = Some current \<and> sym_filepath table = Some current) \<longrightarrow>
      matchingEntries identifier table = []"
  shows "candidateEntries st current identifier = []"
  using assms by (auto simp: candidateEntries_def)

lemma goDefinition_after_delete_event:
  assumes missing: "\<not> fileExists e (normalize D)"
    and asked: "identifierUnderCursor e document offset = Some identifier"
    and only: "\<forall>(k, table) \<in> set (storage_entries st).
        k \<noteq> fileUri e (normalize D) \<longrightarrow> matchingEntries identifier table = []"
  shows "snd (goDefinition e document offset (scan_storage (scanScssFiles e settings st [D])))
           = Inr None"
proof -
  let ?uD = "fileUri e (normalize D)"
  let ?parsed = "parseDocument e document"
  let ?current = "uriToFsPath e (doc_uri document)"
  let ?st1 = "storage_set (storage_delete st ?uD) (doc_uri document) ?parsed"
  have "candidateEntries ?st1 ?current identifier = []"
  proof (rule candidateEntries_empty, intro ballI impI)
    fix table
    assume mem: "table \<in> set (storage_values ?st1)"
      and other: "\<not> (sym_document table = Some ?current \<and> sym_filepath table = Some ?current)"
    from mem obtain k where "(k, table) \<in> set (scssDocuments ?st1)"
      by (auto simp: storage_values_def)
    then have "(k, table) = (doc_uri document, ?parsed)
        \<or> (k, table) \<in> set (AList.delete ?uD (scssDocuments st))"
      using set_update_subset [of "doc_uri document" ?parsed "AList.delete ?uD (scssDocuments st)"]
      by (auto simp: storage_set_def storage_delete_def)
    with other have "(k, table) \<in> set (scssDocuments st) \<and> k \<noteq> ?uD"
      by (auto simp: parseDocument_paths set_delete_eq)
    with only show "matchingEntries identifier table = []"
      by (auto simp: storage_entries_def)
  qed
  then show ?thesis
    by (simp add: scan_delete_event [OF missing] goDefinition_classified [OF asked]
        goIdentifier_parsed)
qed

text \<open>Every table of a reachable storage is complete.\<close>

lemma reachable_complete:
  assumes "reachable st"
  shows "\<forall>table \<in> set (storage_values st). completeTable table"
  using assms
proof (induction rule: reachable.induct)
  case reachable_new
  show ?case by (simp add: newStorage_def storage_values_def)
next
  case (reachable_scan st e settings files)
  then show ?case
    unfolding scanScssFiles_def by (intro scanLoop_complete)
next
  case (reachable_add st e tsConfigPath st')
  from addTsConfigFile_Inr [OF reachable_add.hyps(2)]
  have "scssDocuments st' = scssDocuments st"
    by (auto simp: addTsConfigStep_documents setTsConfig_def)
  with reachable_add.IH show ?case by (simp add: storage_values_def)
next
  case (reachable_update st e tsConfigPath st')
  from updateTsConfigFile_Inr [OF reachable_update.hyps(2)]
  have "scssDocuments st' = scssDocuments st"
    by (auto split: option.splits)
  with reachable_update.IH show ?case by (simp add: storage_values_def)
next
  case (reachable_delete st e tsConfigPath workspaceDir st')
  from reachable_delete.hyps(2) have "scssDocuments st' = scssDocuments st"
    by (auto simp: deleteTsConfigFile_def Let_def bind_eq_Some_conv
        deleteTsConfigStep_documents deleteTsConfig_def)
  with reachable_delete.IH show ?case by (simp add: storage_values_def)
next
  case (reachable_definition st e document offset)
  with goDefinition_storage [of e document offset st]
    storage_values_set [of st "doc_uri document" "parseDocument e document"]
    completeTable_parseDocument [of e document]
  show ?case by auto
next
  case (reachable_completion st e ctx uses document offset settings)
  have "fst (doCompletion e ctx uses document offset settings st) =
      storage_set st (doc_uri document) (parseDocument e document)"
    by (simp add: doCompletion_def Let_def)
  with reachable_completion
    storage_values_set [of st "doc_uri document" "parseDocument e document"]
    completeTable_parseDocument [of e document]
  show ?case by auto
qed

section \<open>Facts about the completion items\<close>

lemma createVariableItem_onlyUse:
  "createVariableItem e document settings True lastUse implicit fsPath =
   createVariableItem e document (settings\<lparr>implicitlyLabel := None\<rparr>) True lastUse implicit fsPath"
  by (rule ext) (simp add: createVariableItem_def Let_def)

lemma createVariableCompletionItems_no_import:
  assumes "case ast of None \<Rightarrow> True
           | Some children \<Rightarrow> \<not> list_ex (\<lambda>child. node_type child = Import) children"
  shows "createVariableCompletionItems e document ast symbols filepath imports settings =
     createVariableCompletionItems e document ast symbols filepath imports
       (settings\<lparr>implicitlyLabel := None\<rparr>)"
proof (cases ast)
  case None
  then show ?thesis
    by (simp add: createVariableCompletionItems_def Let_def
        createVariableItem_onlyUse [of e document settings])
next
  case (Some children)
  with assms have "\<not> list_ex (\<lambda>child. node_type child = Import) children" by simp
  with Some show ?thesis
    by (simp add: createVariableCompletionItems_def Let_def
        createVariableItem_onlyUse [of e document settings])
qed

lemma createMixinCompletionItems_labelled:
  assumes "isImplicitly (sym_document symbol) filepath imports"
    and "implicitlyLabel settings = Some label" and "label \<noteq> []"
  shows "map item_detail (createMixinCompletionItems e [symbol] filepath imports settings) =
     map (\<lambda>mixin. label @ '' '' @ env_getDocumentPath e filepath (sym_filepath symbol))
       (sym_mixins symbol)"
  using assms
  by (simp add: createMixinCompletionItems_def createMixinItem_def Let_def truthy_def comp_def)

lemma createFunctionCompletionItems_labelled:
  assumes "isImplicitly (sym_document symbol) filepath imports"
    and "implicitlyLabel settings = Some label" and "label \<noteq> []"
  shows "map item_detail (createFunctionCompletionItems e [symbol] filepath imports settings) =
     map (\<lambda>func. label @ '' '' @ env_getDocumentPath e filepath (sym_filepath symbol))
       (sym_functions symbol)"
  using assms
  by (simp add: createFunctionCompletionItems_def createMixinItem_def Let_def truthy_def comp_def)

lemma doCompletion_variables_unlabelled:
  assumes "\<not> list_ex (\<lambda>child. node_type child = Import) (env_rootChildren e document)"
    and "\<not> (suggestMixins settings \<and> ctx_mixin context)"
    and "\<not> (suggestFunctions settings \<and> ctx_function context)"
  shows "doCompletion e context uses document offset settings st =
     doCompletion e context uses document offset (settings\<lparr>implicitlyLabel := None\<rparr>) st"
  using assms
    createVariableCompletionItems_no_import [of "Some (env_rootChildren e document)" e document
      "getSymbolsRelatedToDocument (storage_set st (doc_uri document) (parseDocument e document))
         (uriToFsPath e (doc_uri document))"
      "uriToFsPath e (doc_uri document)"
      "map import_filepath (sym_imports (parseDocument e document))" settings]
  by (auto simp: doCompletion_def Let_def)

section \<open>Claims about alias resolution\<close>

text \<open>
  C1. The claim: when an alias matches, the result is the import path with the prefix of
  the first matching alias replaced by that alias's first substitution candidate, resolved
  against the directory of the config file. The source makes the replacement with
  \<open>fsPath.replace(alias, paths[0]!)\<close>, and \<open>replace\<close> reads its second argument as a
  replacement template, not as a text: in the candidate \<open>lib$$/\<close> the pair \<open>$$\<close> stands
  for one \<open>$\<close>. For the import \<open>@/x\<close> under the alias \<open>@/\<close> with that candidate the
  source returns \<open>/proj/lib$/x\<close>, the claim \<open>/proj/lib$$/x\<close>.
\<close>

theorem resolveAliasedPath_candidate_template:
  "resolveAliasedPath ''/'' ''@/x'' ''/proj/src/a.scss''
     (Some \<lparr>ts_filepath = ''/proj/tsconfig.json'',
            ts_paths = Some [\<lparr>sh_alias = ''@/'', sh_paths = [''lib$$/'']\<rparr>]\<rparr>) = ''/proj/lib$/x''
   \<and> resolve ''/'' [dirname ''/proj/tsconfig.json'', ''lib$$/'' @ drop (length ''@/'') ''@/x'']
       = ''/proj/lib$$/x''"
  by code_simp

text \<open>
  C6. The claim: an alias that matches but has no substitution candidate counts as no
  match, and the import path is resolved against the directory of the importing file.
  The source has no such fallback: \<open>paths[0]\<close> is \<open>undefined\<close>, \<open>replace\<close> writes the
  text \<open>undefined\<close> in place of the prefix, and the result is resolved against the
  directory of the config file. For the import \<open>@ui/button\<close> from \<open>/proj/src/a.scss\<close>
  the source returns \<open>/proj/undefinedbutton\<close>, the claim \<open>/proj/src/@ui/button\<close>.
\<close>

theorem resolveAliasedPath_empty_candidates:
  "resolveAliasedPath ''/'' ''@ui/button'' ''/proj/src/a.scss''
     (Some \<lparr>ts_filepath = ''/proj/tsconfig.json'',
            ts_paths = Some [\<lparr>sh_alias = ''@ui/'', sh_paths = []\<rparr>]\<rparr>) = ''/proj/undefinedbutton''
   \<and> resolve ''/'' [dirname ''/proj/src/a.scss'', ''@ui/button''] = ''/proj/src/@ui/button''"
  by code_simp

section \<open>Claims about the config events\<close>

text \<open>
  C2. The claim: when \<open>addTsConfigFile(t)\<close> completes, every indexed document whose path
  is a descendant of the directory of \<open>t\<close> is associated with the entry of \<open>t\<close>. The keys
  of the index are the URIs under which the scan stores the documents, and
  \<open>addTsConfigFile\<close> hands the key itself to \<open>isDescendant\<close>, where the providers turn a
  URI into a path with \<open>uriToFsPath\<close> first. \<open>path.relative\<close> takes the URI for a relative
  path and resolves it against the working directory of the server. For a server working
  in \<open>/proj\<close>, the document \<open>/proj/sub/x.scss\<close> and the config \<open>/proj/sub/tsconfig.json\<close>:
  the path of the document is a descendant of \<open>/proj/sub\<close>, its key is not, the config is
  stored and the document stays without association.
\<close>

theorem addTsConfigFile_nested_config_unassociated:
  "storage_entries nestedStorage =
     [(''file:///proj/sub/x.scss'',
       \<lparr>sym_variables = [], sym_mixins = [], sym_functions = [], sym_imports = [],
        sym_document = Some ''/proj/sub/x.scss'', sym_filepath = Some ''/proj/sub/x.scss''\<rparr>)]
   \<and> isDescendant (sampleEnv ''/proj'' nestedFiles) ''/proj/sub/x.scss''
        (dirname ''/proj/sub/tsconfig.json'')
   \<and> \<not> isDescendant (sampleEnv ''/proj'' nestedFiles) ''file:///proj/sub/x.scss''
        (dirname ''/proj/sub/tsconfig.json'')
   \<and> addTsConfigFile (sampleEnv ''/proj'' nestedFiles) nestedStorage ''/proj/sub/tsconfig.json'' =
       Some (Inr (nestedStorage\<lparr>tsConfigs :=
         [(''file:///proj/sub/tsconfig.json'',
           \<lparr>ts_filepath = ''/proj/sub/tsconfig.json'',
            ts_paths = Some [\<lparr>sh_alias = ''@lib/'', sh_paths = [''libs/'']\<rparr>]\<rparr>)]\<rparr>))
   \<and> getAssociatedTsConfig (nestedStorage\<lparr>tsConfigs :=
         [(''file:///proj/sub/tsconfig.json'',
           \<lparr>ts_filepath = ''/proj/sub/tsconfig.json'',
            ts_paths = Some [\<lparr>sh_alias = ''@lib/'', sh_paths = [''libs/'']\<rparr>]\<rparr>)]\<rparr>)
        ''file:///proj/sub/x.scss'' = None"
  by code_simp

text \<open>
  C9. When \<open>updateTsConfigFile(t)\<close> completes, the stored documents and the associations
  are the ones from before, the config map has the same keys in the same order, every
  config entry under another key is unchanged, and the entry of \<open>t\<close>, if there is one, is
  the old entry with the freshly parsed alias table in place of the old one.
\<close>

theorem updateTsConfigFile_frame:
  assumes "updateTsConfigFile e st t = Some (Inr st')"
  shows "scssDocuments st' = scssDocuments st
    \<and> tsConfigsAssociations st' = tsConfigsAssociations st
    \<and> map fst (tsConfigs st') = map fst (tsConfigs st)
    \<and> (\<forall>k. k \<noteq> fsPathToUri e t \<longrightarrow> getTsConfig st' k = getTsConfig st k)
    \<and> (\<exists>newTsConfig. parseTsConfig e t = Some (Inr newTsConfig)
          \<and> getTsConfig st' (fsPathToUri e t) =
              map_option (\<lambda>old. old\<lparr>ts_paths := ts_paths newTsConfig\<rparr>)
                (getTsConfig st (fsPathToUri e t)))"
proof -
  from updateTsConfigFile_Inr [OF assms] obtain newTsConfig
    where p: "parseTsConfig e t = Some (Inr newTsConfig)"
      and st': "st' = (case getTsConfig st (fsPathToUri e t) of
               None \<Rightarrow> st
             | Some old \<Rightarrow> st\<lparr>tsConfigs := AList.update (fsPathToUri e t)
                        (old\<lparr>ts_paths := ts_paths newTsConfig\<rparr>) (tsConfigs st)\<rparr>)"
    by blast
  show ?thesis
  proof (cases "getTsConfig st (fsPathToUri e t)")
    case None
    with st' p show ?thesis by auto
  next
    case (Some old)
    then have keys: "map fst (AList.update (fsPathToUri e t)
        (old\<lparr>ts_paths := ts_paths newTsConfig\<rparr>) (tsConfigs st)) = map fst (tsConfigs st)"
      by (simp add: getTsConfig_def update_present_keys)
    from st' Some keys p show ?thesis
      by (auto simp: getTsConfig_def update_conv')
  qed
qed

theorem updateTsConfigFile_frame_witness:
  "updateTsConfigFile
       (sampleEnv ''/proj'' [(''/proj/a.scss'', File aText), (''/proj/b.scss'', File bText),
                             (''/proj/tsconfig.json'', File tsConfigText2)])
       configuredStorage ''/proj/tsconfig.json''
     = Some (Inr (configuredStorage\<lparr>tsConfigs :=
         [(''file:///proj/tsconfig.json'',
           \<lparr>ts_filepath = ''/proj/tsconfig.json'',
            ts_paths = Some [\<lparr>sh_alias = ''@ui/'', sh_paths = [''src/ui/'']\<rparr>]\<rparr>)]\<rparr>))
   \<and> ''file:///other/tsconfig.json'' \<noteq>
        fsPathToUri (sampleEnv ''/proj'' [(''/proj/a.scss'', File aText),
           (''/proj/b.scss'', File bText), (''/proj/tsconfig.json'', File tsConfigText2)])
          ''/proj/tsconfig.json''
   \<and> scssDocuments (configuredStorage\<lparr>tsConfigs :=
         [(''file:///proj/tsconfig.json'',
           \<lparr>ts_filepath = ''/proj/tsconfig.json'',
            ts_paths = Some [\<lparr>sh_alias = ''@ui/'', sh_paths = [''src/ui/'']\<rparr>]\<rparr>)]\<rparr>)
       = scssDocuments configuredStorage
   \<and> getTsConfig (configuredStorage\<lparr>tsConfigs :=
         [(''file:///proj/tsconfig.json'',
           \<lparr>ts_filepath = ''/proj/tsconfig.json'',
            ts_paths = Some [\<lparr>sh_alias = ''@ui/'', sh_paths = [''src/ui/'']\<rparr>]\<rparr>)]\<rparr>)
        ''file:///other/tsconfig.json'' = getTsConfig configuredStorage ''file:///other/tsconfig.json''"
proof -
  let ?e = "sampleEnv ''/proj'' [(''/proj/a.scss'', File aText), (''/proj/b.scss'', File bText),
                             (''/proj/tsconfig.json'', File tsConfigText2)]"
  let ?st' = "configuredStorage\<lparr>tsConfigs :=
         [(''file:///proj/tsconfig.json'',
           \<lparr>ts_filepath = ''/proj/tsconfig.json'',
            ts_paths = Some [\<lparr>sh_alias = ''@ui/'', sh_paths = [''src/ui/'']\<rparr>]\<rparr>)]\<rparr>"
  have h: "updateTsConfigFile ?e configuredStorage ''/proj/tsconfig.json'' = Some (Inr ?st')"
    by code_simp
  have k: "''file:///other/tsconfig.json'' \<noteq> fsPathToUri ?e ''/proj/tsconfig.json''"
    by code_simp
  show ?thesis
    using updateTsConfigFile_frame [OF h] h k by blast
qed

section \<open>Claims about the walk to the parent directories\<close>

text \<open>
  C10. The claim: \<open>findFileInParents(filename, dir, limit)\<close> returns for every input,
  and for a strict descendant \<open>dir\<close> of \<open>limit\<close> it looks into \<open>dir\<close> and its parents
  below \<open>limit\<close>, never into the limit directory. The guard of the source decides
  descent with \<open>path.relative\<close>, which normalises both paths; its loop stops when \<open>dir\<close>
  is the very text \<open>limit\<close>. With the limit written \<open>/a/\<close> the directory \<open>/a/b\<close> is a
  strict descendant, but no parent of it is the text \<open>/a/\<close>. The loop looks into \<open>/a/b\<close>,
  then into \<open>/a\<close>, the limit directory: a file there is returned. When there is none
  the loop goes on to \<open>/\<close>, whose parent is \<open>/\<close>, and never ends. With the directory
  written \<open>/a/./b\<close> and the limit \<open>/a\<close> the loop ends, but on its way it looks into
  \<open>/a/.\<close>, which is the limit directory again.
\<close>

theorem findFileInParents_trailing_slash:
  "isDescendant (sampleEnv ''/'' []) ''/a/b'' ''/a/''
   \<and> \<not> isDescendant (sampleEnv ''/'' []) ''/a/'' ''/a/b''
   \<and> findFileInParents (sampleEnv ''/'' []) ''tsconfig.json'' ''/a/b'' ''/a/'' = None
   \<and> findFileInParents (sampleEnv ''/'' [(''/a/tsconfig.json'', File [])])
         ''tsconfig.json'' ''/a/b'' ''/a/'' = Some (Some ''/a/tsconfig.json'')
   \<and> findFileInParents (sampleEnv ''/'' [(''/a/tsconfig.json'', File [])])
         ''tsconfig.json'' ''/a/./b'' ''/a'' = Some (Some ''/a/tsconfig.json'')"
proof -
  let ?e = "sampleEnv ''/'' []"
  have guard: "isDescendant ?e ''/a/b'' ''/a/'' \<and> \<not> isDescendant ?e ''/a/'' ''/a/b''"
    by code_simp
  have nofile: "\<not> fileExists ?e p" for p
    by (simp add: fileExists_def sampleEnv_def)
  have d1: "dirname ''/a/b'' = ''/a''" by code_simp
  have d2: "dirname ''/a'' = ''/''" by code_simp
  have d3: "dirname ''/'' = ''/''" by code_simp
  have stuck: "findInParentsLoop ?e ''tsconfig.json'' ''/'' ''/a/'' = None"
    by (rule findInParentsLoop_stuck) (simp_all add: d3 nofile)
  have "findInParentsLoop ?e ''tsconfig.json'' ''/a'' ''/a/'' = None"
    by (subst findInParentsLoop.simps) (simp add: nofile d2 stuck)
  then have "findInParentsLoop ?e ''tsconfig.json'' ''/a/b'' ''/a/'' = None"
    by (subst findInParentsLoop.simps) (simp add: nofile d1)
  with guard have hang: "findFileInParents ?e ''tsconfig.json'' ''/a/b'' ''/a/'' = None"
    by (simp add: findFileInParents_def)
  have found: "findFileInParents (sampleEnv ''/'' [(''/a/tsconfig.json'', File [])])
      ''tsconfig.json'' ''/a/b'' ''/a/'' = Some (Some ''/a/tsconfig.json'')"
    by code_simp
  have dotted: "findFileInParents (sampleEnv ''/'' [(''/a/tsconfig.json'', File [])])
      ''tsconfig.json'' ''/a/./b'' ''/a'' = Some (Some ''/a/tsconfig.json'')"
    by code_simp
  from guard hang found dotted show ?thesis by simp
qed

theorem findFileInParents_trailing_slash_witness:
  "isDescendant (sampleEnv ''/'' []) ''/a/b'' ''/a/''
   \<and> findFileInParents (sampleEnv ''/'' []) ''tsconfig.json'' ''/a/b'' ''/a/'' \<noteq> Some None
   \<and> findFileInParents (sampleEnv ''/'' [(''/a/tsconfig.json'', File [])])
         ''tsconfig.json'' ''/a/b'' ''/a/'' \<noteq> Some None"
  using findFileInParents_trailing_slash by simp

text \<open>
  C8. The claim: in every state that the scanner entry points reach, each association
  points at a config held by the config map. A server working in \<open>/proj\<close> scans
  \<open>a.scss\<close>, adds \<open>/proj/tsconfig.json\<close>, which associates both style sheets with it, and
  then handles the deletion of that config. \<open>deleteTsConfigFile\<close> removes the config, but
  tests the documents against the path of the config file, not against its directory as
  \<open>addTsConfigFile\<close> does; no document passes, both associations stay and point at a
  config that is gone. \<open>getAssociatedTsConfig\<close> answers \<open>undefined\<close> for them.
\<close>

theorem deleteTsConfigFile_keeps_associations:
  "associationTargetsStored configuredStorage
   \<and> deleteTsConfigFile
        (sampleEnv ''/proj'' [(''/proj/a.scss'', File aText), (''/proj/b.scss'', File bText)])
        configuredStorage ''/proj/tsconfig.json'' ''/proj''
       = Some (configuredStorage\<lparr>tsConfigs := []\<rparr>)
   \<and> tsConfigsAssociations (configuredStorage\<lparr>tsConfigs := []\<rparr>) =
       [(''file:///proj/a.scss'', ''file:///proj/tsconfig.json''),
        (''file:///proj/b.scss'', ''file:///proj/tsconfig.json'')]
   \<and> \<not> associationTargetsStored (configuredStorage\<lparr>tsConfigs := []\<rparr>)
   \<and> getAssociatedTsConfig (configuredStorage\<lparr>tsConfigs := []\<rparr>) ''file:///proj/a.scss'' = None"
  by code_simp

section \<open>Claims about go to definition and the scan\<close>

text \<open>
  C3. When the place of the query asks for a variable, mixin or function,
  \<open>goDefinition\<close> writes the freshly parsed table of the current document into the index
  under the document's URI. Its candidates are the entries of the kind asked for, in
  every indexed table except those whose document path and file path both are the
  current path, whose name is the identifier's and whose position is not the identifier's
  own. With no candidate the answer is \<open>null\<close>. Otherwise, in every storage that the
  server reaches, the table of the first candidate in the order of the index has a file
  path and the candidate a position, and the answer is the location of that candidate.
  When the place asks for nothing, the index is left as it is and no location is
  returned.
\<close>

theorem goDefinition_first_candidate:
  "(identifierUnderCursor e document offset = Some identifier \<longrightarrow>
      fst (goDefinition e document offset st) =
        storage_set st (doc_uri document) (parseDocument e document))
   \<and> (identifierUnderCursor e document offset = Some identifier
       \<and> candidateEntries (storage_set st (doc_uri document) (parseDocument e document))
            (uriToFsPath e (doc_uri document)) identifier = [] \<longrightarrow>
       snd (goDefinition e document offset st) = Inr None)
   \<and> (\<forall>table item rest.
         reachable st \<and> identifierUnderCursor e document offset = Some identifier
         \<and> candidateEntries (storage_set st (doc_uri document) (parseDocument e document))
              (uriToFsPath e (doc_uri document)) identifier = (table, item) # rest \<longrightarrow>
         (\<exists>declaringFile pos.
            sym_filepath table = Some declaringFile \<and> info_position item = Some pos
            \<and> snd (goDefinition e document offset st) =
                Inr (Some (locationOfEntry e declaringFile pos item))))
   \<and> (identifierUnderCursor e document offset = None \<longrightarrow>
       fst (goDefinition e document offset st) = st
       \<and> (\<forall>location. snd (goDefinition e document offset st) \<noteq> Inr (Some location)))"
proof (intro conjI allI impI)
  assume "identifierUnderCursor e document offset = Some identifier"
  then show "fst (goDefinition e document offset st) =
      storage_set st (doc_uri document) (parseDocument e document)"
    by (simp add: goDefinition_classified goIdentifier_parsed)
next
  assume "identifierUnderCursor e document offset = Some identifier
       \<and> candidateEntries (storage_set st (doc_uri document) (parseDocument e document))
            (uriToFsPath e (doc_uri document)) identifier = []"
  then show "snd (goDefinition e document offset st) = Inr None"
    by (simp add: goDefinition_classified goIdentifier_parsed)
next
  fix table item rest
  let ?st1 = "storage_set st (doc_uri document) (parseDocument e document)"
  assume a: "reachable st \<and> identifierUnderCursor e document offset = Some identifier
         \<and> candidateEntries ?st1 (uriToFsPath e (doc_uri document)) identifier
             = (table, item) # rest"
  then have "(table, item) \<in> set (candidateEntries ?st1 (uriToFsPath e (doc_uri document))
      identifier)"
    by simp
  then have member: "table \<in> set (storage_values ?st1)"
    and entry: "item \<in> set (entriesOfKind (id_type identifier) table)"
    using candidateEntries_member by blast+
  from a have "\<forall>t \<in> set (storage_values st). completeTable t"
    by (intro reachable_complete) simp
  with member storage_values_set [of st "doc_uri document" "parseDocument e document"]
    completeTable_parseDocument [of e document]
  have complete: "completeTable table" by auto
  then obtain declaringFile where declared: "sym_filepath table = Some declaringFile"
    by (auto simp: completeTable_def)
  from complete entry obtain pos where pos: "info_position item = Some pos"
    using completeTable_position by blast
  from a declared pos have "snd (goDefinition e document offset st) =
      Inr (Some (locationOfEntry e declaringFile pos item))"
    by (simp add: goDefinition_classified goIdentifier_parsed)
  with declared pos show "\<exists>declaringFile pos.
      sym_filepath table = Some declaringFile \<and> info_position item = Some pos
      \<and> snd (goDefinition e document offset st) =
          Inr (Some (locationOfEntry e declaringFile pos item))"
    by blast
next
  assume "identifierUnderCursor e document offset = None"
  then show "fst (goDefinition e document offset st) = st"
    by (simp add: goDefinition_unclassified)
next
  fix location
  assume "identifierUnderCursor e document offset = None"
  then show "snd (goDefinition e document offset st) \<noteq> Inr (Some location)"
    by (simp add: goDefinition_unclassified)
qed

theorem goDefinition_first_candidate_witness:
  "reachable queryStorage
   \<and> map fst (storage_entries queryStorage) =
       [''file:///proj/a.scss'', ''file:///proj/f.scss'', ''file:///proj/b.scss'']
   \<and> goDefinition (sampleEnv ''/proj'' queryFiles) aDocument 23 queryStorage =
       (storage_set queryStorage ''file:///proj/a.scss''
          (parseDocument (sampleEnv ''/proj'' queryFiles) aDocument),
        Inr (Some \<lparr>loc_uri = ''file:///proj/b.scss'',
                    loc_start = \<lparr>pos_line = 0, pos_character = 11\<rparr>,
                    loc_end = \<lparr>pos_line = 0, pos_character = 17\<rparr>\<rparr>))
   \<and> snd (goDefinition (sampleEnv ''/proj'' queryFiles) cDocument 14 queryStorage) =
       Inr (Some \<lparr>loc_uri = ''file:///proj/b.scss'',
                   loc_start = \<lparr>pos_line = 0, pos_character = 24\<rparr>,
                   loc_end = \<lparr>pos_line = 0, pos_character = 27\<rparr>\<rparr>)
   \<and> snd (goDefinition (sampleEnv ''/proj'' queryFiles) gDocument 12 queryStorage) =
       Inr (Some \<lparr>loc_uri = ''file:///proj/f.scss'',
                   loc_start = \<lparr>pos_line = 0, pos_character = 0\<rparr>,
                   loc_end = \<lparr>pos_line = 0, pos_character = 3\<rparr>\<rparr>)
   \<and> snd (goDefinition (sampleEnv ''/proj'' queryFiles) kDocument 14 queryStorage) = Inr None
   \<and> goDefinition (sampleEnv ''/proj'' queryFiles) aDocument 3 queryStorage
       = (queryStorage, Inr None)"
proof -
  let ?e = "sampleEnv ''/proj'' queryFiles"
  let ?color = "\<lparr>id_type = KeyVariables, id_position = \<lparr>pos_line = 0, pos_character = 23\<rparr>,
                 id_name = ''$color''\<rparr>"
  let ?box = "\<lparr>id_type = KeyMixins, id_position = \<lparr>pos_line = 0, pos_character = 5\<rparr>,
               id_name = ''box''\<rparr>"
  let ?gap = "\<lparr>id_type = KeyFunctions, id_position = \<lparr>pos_line = 0, pos_character = 12\<rparr>,
               id_name = ''gap''\<rparr>"
  let ?card = "\<lparr>id_type = KeyMixins, id_position = \<lparr>pos_line = 0, pos_character = 5\<rparr>,
                id_name = ''card''\<rparr>"
  let ?tableB = "the (storage_get queryStorage ''file:///proj/b.scss'')"
  let ?tableF = "the (storage_get queryStorage ''file:///proj/f.scss'')"
  have reach: "reachable queryStorage"
    unfolding queryStorage_def by (intro reachable.intros)
  have keys: "map fst (storage_entries queryStorage) =
      [''file:///proj/a.scss'', ''file:///proj/f.scss'', ''file:///proj/b.scss'']"
    by code_simp
  have asked: "identifierUnderCursor ?e aDocument 23 = Some ?color"
    "identifierUnderCursor ?e cDocument 14 = Some ?box"
    "identifierUnderCursor ?e gDocument 12 = Some ?gap"
    "identifierUnderCursor ?e kDocument 14 = Some ?card"
    "identifierUnderCursor ?e aDocument 3 = None"
    by code_simp+
  have candsA: "candidateEntries (storage_set queryStorage (doc_uri aDocument)
        (parseDocument ?e aDocument)) (uriToFsPath ?e (doc_uri aDocument)) ?color
      = (?tableB, VariableInfo colorVariable) # []"
    by code_simp
  have candsC: "candidateEntries (storage_set queryStorage (doc_uri cDocument)
        (parseDocument ?e cDocument)) (uriToFsPath ?e (doc_uri cDocument)) ?box
      = (?tableB, MixinInfo boxMixin) # []"
    by code_simp
  have candsG: "candidateEntries (storage_set queryStorage (doc_uri gDocument)
        (parseDocument ?e gDocument)) (uriToFsPath ?e (doc_uri gDocument)) ?gap
      = (?tableF, MixinInfo gapFunction) # []"
    by code_simp
  have candsK: "candidateEntries (storage_set queryStorage (doc_uri kDocument)
        (parseDocument ?e kDocument)) (uriToFsPath ?e (doc_uri kDocument)) ?card = []"
    by code_simp
  have files: "sym_filepath ?tableB = Some ''/proj/b.scss''"
    "sym_filepath ?tableF = Some ''/proj/f.scss''"
    by code_simp+
  have positions: "info_position (VariableInfo colorVariable) = Some \<lparr>pos_line = 0, pos_character = 11\<rparr>"
    "info_position (MixinInfo boxMixin) = Some \<lparr>pos_line = 0, pos_character = 24\<rparr>"
    "info_position (MixinInfo gapFunction) = Some \<lparr>pos_line = 0, pos_character = 0\<rparr>"
    by code_simp+
  have locations:
    "locationOfEntry ?e ''/proj/b.scss'' \<lparr>pos_line = 0, pos_character = 11\<rparr>
       (VariableInfo colorVariable) =
     \<lparr>loc_uri = ''file:///proj/b.scss'', loc_start = \<lparr>pos_line = 0, pos_character = 11\<rparr>,
      loc_end = \<lparr>pos_line = 0, pos_character = 17\<rparr>\<rparr>"
    "locationOfEntry ?e ''/proj/b.scss'' \<lparr>pos_line = 0, pos_character = 24\<rparr>
       (MixinInfo boxMixin) =
     \<lparr>loc_uri = ''file:///proj/b.scss'', loc_start = \<lparr>pos_line = 0, pos_character = 24\<rparr>,
      loc_end = \<lparr>pos_line = 0, pos_character = 27\<rparr>\<rparr>"
    "locationOfEntry ?e ''/proj/f.scss'' \<lparr>pos_line = 0, pos_character = 0\<rparr>
       (MixinInfo gapFunction) =
     \<lparr>loc_uri = ''file:///proj/f.scss'', loc_start = \<lparr>pos_line = 0, pos_character = 0\<rparr>,
      loc_end = \<lparr>pos_line = 0, pos_character = 3\<rparr>\<rparr>"
    by code_simp+
  have uriA: "doc_uri aDocument = ''file:///proj/a.scss''"
    by (simp add: aDocument_def)
  have writtenA: "fst (goDefinition ?e aDocument 23 queryStorage) =
      storage_set queryStorage (doc_uri aDocument) (parseDocument ?e aDocument)"
    using goDefinition_first_candidate [of ?e aDocument 23 ?color queryStorage] asked(1)
    by blast
  have foundA: "snd (goDefinition ?e aDocument 23 queryStorage) =
      Inr (Some (locationOfEntry ?e ''/proj/b.scss'' \<lparr>pos_line = 0, pos_character = 11\<rparr>
                   (VariableInfo colorVariable)))"
    using goDefinition_first_candidate [of ?e aDocument 23 ?color queryStorage,
        THEN conjunct2, THEN conjunct2, THEN conjunct1, rule_format,
        of ?tableB "VariableInfo colorVariable" "[]"]
      reach asked(1) candsA files(1) positions(1)
    by auto
  have foundC: "snd (goDefinition ?e cDocument 14 queryStorage) =
      Inr (Some (locationOfEntry ?e ''/proj/b.scss'' \<lparr>pos_line = 0, pos_character = 24\<rparr>
                   (MixinInfo boxMixin)))"
    using goDefinition_first_candidate [of ?e cDocument 14 ?box queryStorage,
        THEN conjunct2, THEN conjunct2, THEN conjunct1, rule_format,
        of ?tableB "MixinInfo boxMixin" "[]"]
      reach asked(2) candsC files(1) positions(2)
    by auto
  have foundG: "snd (goDefinition ?e gDocument 12 queryStorage) =
      Inr (Some (locationOfEntry ?e ''/proj/f.scss'' \<lparr>pos_line = 0, pos_character = 0\<rparr>
                   (MixinInfo gapFunction)))"
    using goDefinition_first_candidate [of ?e gDocument 12 ?gap queryStorage,
        THEN conjunct2, THEN conjunct2, THEN conjunct1, rule_format,
        of ?tableF "MixinInfo gapFunction" "[]"]
      reach asked(3) candsG files(2) positions(3)
    by auto
  have noneK: "snd (goDefinition ?e kDocument 14 queryStorage) = Inr None"
    using goDefinition_first_candidate [of ?e kDocument 14 ?card queryStorage] asked(4) candsK
    by blast
  have untouched: "fst (goDefinition ?e aDocument 3 queryStorage) = queryStorage"
    using goDefinition_first_candidate [of ?e aDocument 3 _ queryStorage] asked(5)
    by blast
  have null: "snd (goDefinition ?e aDocument 3 queryStorage) = Inr None"
    by code_simp
  have unchanged: "goDefinition ?e aDocument 3 queryStorage = (queryStorage, Inr None)"
    by (rule prod_eqI) (simp_all only: fst_conv snd_conv untouched null)
  have answerA: "goDefinition ?e aDocument 23 queryStorage =
      (storage_set queryStorage ''file:///proj/a.scss'' (parseDocument ?e aDocument),
       Inr (Some \<lparr>loc_uri = ''file:///proj/b.scss'',
                   loc_start = \<lparr>pos_line = 0, pos_character = 11\<rparr>,
                   loc_end = \<lparr>pos_line = 0, pos_character = 17\<rparr>\<rparr>))"
    by (rule prod_eqI) (simp_all only: fst_conv snd_conv writtenA foundA locations uriA)
  from reach keys answerA foundC foundG noneK unchanged show ?thesis
    by (simp only: locations simp_thms)
qed

text \<open>
  C4. \<open>scanScssFiles\<close> is a total function: the loop over the growing set ends for every
  list of paths and every file system. No path is visited twice, only input paths and
  import targets of files of the file system are visited, and no key of the index gets a
  second entry. When two files import each other and nothing else, a scan that starts at
  one visits both once, ends without error, and leaves each with exactly one entry in the
  index.
\<close>

theorem scanScssFiles_visits_once:
  "distinct (scan_visited (scanScssFiles e settings st files))
   \<and> set (scan_visited (scanScssFiles e settings st files)) \<subseteq> set files \<union> allImportTargets e
   \<and> (distinct (storage_keys st) \<longrightarrow>
       distinct (storage_keys (scan_storage (scanScssFiles e settings st files))))
   \<and> (normalize a = a \<and> normalize b = b \<and> a \<noteq> b
       \<and> readFile e a = Inr ca \<and> readFile e b = Inr cb
       \<and> staticImports (parseDocument e \<lparr>doc_uri = fileUri e a, doc_text = ca\<rparr>) = [b]
       \<and> staticImports (parseDocument e \<lparr>doc_uri = fileUri e b, doc_text = cb\<rparr>) = [a]
       \<and> scanImportedFiles settings \<and> distinct (storage_keys st) \<longrightarrow>
       scan_visited (scanScssFiles e settings st [a]) = [a, b]
       \<and> scan_error (scanScssFiles e settings st [a]) = None
       \<and> count_list (storage_keys (scan_storage (scanScssFiles e settings st [a]))) (fileUri e a) = 1
       \<and> count_list (storage_keys (scan_storage (scanScssFiles e settings st [a]))) (fileUri e b) = 1)"
proof (intro conjI impI)
  show "distinct (scan_visited (scanScssFiles e settings st files))"
    by (simp add: scanScssFiles_def scanLoop_visited_distinct distinct_newSet)
  show "set (scan_visited (scanScssFiles e settings st files)) \<subseteq> set files \<union> allImportTargets e"
    using scanLoop_visited_subset [of e settings "newSet files" 0 st]
    by (simp add: scanScssFiles_def set_newSet)
next
  assume "distinct (storage_keys st)"
  then show "distinct (storage_keys (scan_storage (scanScssFiles e settings st files)))"
    by (simp add: scanScssFiles_def scanLoop_keys_distinct)
next
  assume a: "normalize a = a \<and> normalize b = b \<and> a \<noteq> b
       \<and> readFile e a = Inr ca \<and> readFile e b = Inr cb
       \<and> staticImports (parseDocument e \<lparr>doc_uri = fileUri e a, doc_text = ca\<rparr>) = [b]
       \<and> staticImports (parseDocument e \<lparr>doc_uri = fileUri e b, doc_text = cb\<rparr>) = [a]
       \<and> scanImportedFiles settings \<and> distinct (storage_keys st)"
  let ?va = "(parseDocument e \<lparr>doc_uri = fileUri e a, doc_text = ca\<rparr>)\<lparr>sym_filepath := Some a\<rparr>"
  let ?vb = "(parseDocument e \<lparr>doc_uri = fileUri e b, doc_text = cb\<rparr>)\<lparr>sym_filepath := Some b\<rparr>"
  let ?st2 = "storage_set (storage_set st (fileUri e a) ?va) (fileUri e b) ?vb"
  from a have r: "scanScssFiles e settings st [a] =
      \<lparr>scan_visited = [a, b], scan_error = None, scan_storage = ?st2\<rparr>"
    by (intro scan_two_file_cycle) simp_all
  from a have d: "distinct (storage_keys ?st2)"
    by (simp add: storage_keys_set_distinct)
  have m: "fileUri e a \<in> set (storage_keys ?st2)" "fileUri e b \<in> set (storage_keys ?st2)"
    by (simp_all add: storage_keys_set)
  show "scan_visited (scanScssFiles e settings st [a]) = [a, b]"
    and "scan_error (scanScssFiles e settings st [a]) = None"
    and "count_list (storage_keys (scan_storage (scanScssFiles e settings st [a]))) (fileUri e a) = 1"
    and "count_list (storage_keys (scan_storage (scanScssFiles e settings st [a]))) (fileUri e b) = 1"
    using d m by (simp_all add: r count_list_distinct)
qed

theorem scanScssFiles_visits_once_witness:
  "distinct (storage_keys newStorage)
   \<and> scan_visited (scanScssFiles (sampleEnv ''/proj'' sampleFiles) sampleSettings newStorage
        [''/proj/a.scss'']) = [''/proj/a.scss'', ''/proj/b.scss'']
   \<and> count_list (storage_keys (scan_storage (scanScssFiles (sampleEnv ''/proj'' sampleFiles)
        sampleSettings newStorage [''/proj/a.scss'']))) ''file:///proj/a.scss'' = 1
   \<and> count_list (storage_keys (scan_storage (scanScssFiles (sampleEnv ''/proj'' sampleFiles)
        sampleSettings newStorage [''/proj/a.scss'']))) ''file:///proj/b.scss'' = 1"
proof -
  let ?e = "sampleEnv ''/proj'' sampleFiles"
  have hyp: "normalize ''/proj/a.scss'' = ''/proj/a.scss''
       \<and> normalize ''/proj/b.scss'' = ''/proj/b.scss'' \<and> ''/proj/a.scss'' \<noteq> ''/proj/b.scss''
       \<and> readFile ?e ''/proj/a.scss'' = Inr aText \<and> readFile ?e ''/proj/b.scss'' = Inr bText
       \<and> staticImports (parseDocument ?e
            \<lparr>doc_uri = fileUri ?e ''/proj/a.scss'', doc_text = aText\<rparr>) = [''/proj/b.scss'']
       \<and> staticImports (parseDocument ?e
            \<lparr>doc_uri = fileUri ?e ''/proj/b.scss'', doc_text = bText\<rparr>) = [''/proj/a.scss'']
       \<and> scanImportedFiles sampleSettings \<and> distinct (storage_keys newStorage)"
    by code_simp
  have uris: "fileUri ?e ''/proj/a.scss'' = ''file:///proj/a.scss''
      \<and> fileUri ?e ''/proj/b.scss'' = ''file:///proj/b.scss''"
    by code_simp
  from hyp have "distinct (storage_keys newStorage)" by blast
  then show ?thesis
    using scanScssFiles_visits_once
      [of ?e sampleSettings newStorage "[''/proj/a.scss'']" "''/proj/a.scss''" "''/proj/b.scss''"
        aText bText, THEN conjunct2, THEN conjunct2, THEN conjunct2, rule_format, OF hyp] uris
    by simp
qed

text \<open>
  C5. A path that the scan visits and whose file does not exist has no entry in the index
  afterwards, the paths of the scan being document paths: different paths among the
  given ones and the import targets have different URIs. For the scan of the single path
  \<open>D\<close> that a delete event starts, the entry under the URI of \<open>D\<close> is gone, and
  \<open>goDefinition\<close>, asked for an identifier whose only matching symbols sat in that entry,
  answers \<open>null\<close> and does not throw.
\<close>

theorem scanScssFiles_removes_missing:
  "(D \<in> set (scan_visited (scanScssFiles e settings st files))
     \<and> \<not> fileExists e (normalize D)
     \<and> inj_on (fileUri e) (normalize ` (set files \<union> allImportTargets e)) \<longrightarrow>
     storage_get (scan_storage (scanScssFiles e settings st files)) (fileUri e (normalize D)) = None)
   \<and> (\<not> fileExists e (normalize D) \<longrightarrow>
       storage_get (scan_storage (scanScssFiles e settings st [D])) (fileUri e (normalize D)) = None)
   \<and> (\<not> fileExists e (normalize D)
       \<and> identifierUnderCursor e document offset = Some identifier
       \<and> (\<forall>(k, table) \<in> set (storage_entries st).
             k \<noteq> fileUri e (normalize D) \<longrightarrow> matchingEntries identifier table = []) \<longrightarrow>
       snd (goDefinition e document offset (scan_storage (scanScssFiles e settings st [D])))
         = Inr None)"
proof (intro conjI impI)
  let ?S = "set files \<union> allImportTargets e"
  assume a: "D \<in> set (scan_visited (scanScssFiles e settings st files))
     \<and> \<not> fileExists e (normalize D)
     \<and> inj_on (fileUri e) (normalize ` ?S)"
  with scanLoop_visited_subset [of e settings "newSet files" 0 st]
  have "D \<in> ?S" by (auto simp: scanScssFiles_def set_newSet)
  with a have "inj_on (fileUri e) (normalize ` ?S) \<and> D \<in> ?S \<and> allImportTargets e \<subseteq> ?S
      \<and> set (newSet files) \<subseteq> ?S"
    by (auto simp: set_newSet)
  with a show "storage_get (scan_storage (scanScssFiles e settings st files))
      (fileUri e (normalize D)) = None"
    unfolding scanScssFiles_def
    by (intro scanLoop_missing_removed [where S = ?S]) simp_all
next
  assume "\<not> fileExists e (normalize D)"
  then show "storage_get (scan_storage (scanScssFiles e settings st [D]))
      (fileUri e (normalize D)) = None"
    by (simp add: scan_delete_event storage_get_delete)
next
  assume a: "\<not> fileExists e (normalize D)
       \<and> identifierUnderCursor e document offset = Some identifier
       \<and> (\<forall>(k, table) \<in> set (storage_entries st).
             k \<noteq> fileUri e (normalize D) \<longrightarrow> matchingEntries identifier table = [])"
  then have missing: "\<not> fileExists e (normalize D)"
    and asked: "identifierUnderCursor e document offset = Some identifier"
    and only: "\<forall>(k, table) \<in> set (storage_entries st).
        k \<noteq> fileUri e (normalize D) \<longrightarrow> matchingEntries identifier table = []"
    by blast+
  show "snd (goDefinition e document offset (scan_storage (scanScssFiles e settings st [D])))
      = Inr None"
    by (rule goDefinition_after_delete_event [OF missing asked only])
qed

theorem scanScssFiles_removes_missing_witness:
  "\<not> fileExists (sampleEnv ''/proj'' [(''/proj/a.scss'', File aText)]) (normalize ''/proj/b.scss'')
   \<and> storage_get scannedStorage ''file:///proj/b.scss'' \<noteq> None
   \<and> scan_visited (scanScssFiles
         (sampleEnv ''/proj'' [(''/proj/a.scss'', File aText)]) sampleSettings scannedStorage
         [''/proj/b.scss'', ''/proj/a.scss''])
       = [''/proj/b.scss'', ''/proj/a.scss'', ''/proj/b'']
   \<and> storage_get (scan_storage (scanScssFiles
         (sampleEnv ''/proj'' [(''/proj/a.scss'', File aText)]) sampleSettings scannedStorage
         [''/proj/b.scss'', ''/proj/a.scss''])) ''file:///proj/b.scss'' = None
   \<and> storage_get (scan_storage (scanScssFiles
         (sampleEnv ''/proj'' [(''/proj/a.scss'', File aText)]) sampleSettings scannedStorage
         [''/proj/b.scss''])) ''file:///proj/b.scss'' = None
   \<and> snd (goDefinition (sampleEnv ''/proj'' [(''/proj/a.scss'', File aText)]) aDocument 23
            (scan_storage (scanScssFiles
               (sampleEnv ''/proj'' [(''/proj/a.scss'', File aText)]) sampleSettings scannedStorage
               [''/proj/b.scss'']))) = Inr None
   \<and> snd (goDefinition (sampleEnv ''/proj'' sampleFiles) aDocument 23 scannedStorage)
       = Inr (Some \<lparr>loc_uri = ''file:///proj/b.scss'',
                     loc_start = \<lparr>pos_line = 0, pos_character = 11\<rparr>,
                     loc_end = \<lparr>pos_line = 0, pos_character = 17\<rparr>\<rparr>)"
proof -
  let ?e = "sampleEnv ''/proj'' [(''/proj/a.scss'', File aText)]"
  let ?color = "\<lparr>id_type = KeyVariables, id_position = \<lparr>pos_line = 0, pos_character = 23\<rparr>,
                 id_name = ''$color''\<rparr>"
  have missing: "\<not> fileExists ?e (normalize ''/proj/b.scss'')"
    by code_simp
  have before: "storage_get scannedStorage ''file:///proj/b.scss'' \<noteq> None"
    by code_simp
  have visited: "scan_visited (scanScssFiles ?e sampleSettings scannedStorage
      [''/proj/b.scss'', ''/proj/a.scss'']) = [''/proj/b.scss'', ''/proj/a.scss'', ''/proj/b'']"
    by code_simp
  have imps: "staticImports (parseDocument ?e
      \<lparr>doc_uri = fileUri ?e ''/proj/a.scss'', doc_text = aText\<rparr>) = [''/proj/b'']"
    by code_simp
  have targets: "allImportTargets ?e = {''/proj/b''}"
    by (simp add: allImportTargets_def sampleEnv_def) (simp add: imps [unfolded sampleEnv_def])
  have normal: "normalize ''/proj/b.scss'' = ''/proj/b.scss''"
    "normalize ''/proj/a.scss'' = ''/proj/a.scss''" "normalize ''/proj/b'' = ''/proj/b''"
    by code_simp+
  have uris: "fileUri ?e ''/proj/b.scss'' = ''file:///proj/b.scss''"
    "fileUri ?e ''/proj/a.scss'' = ''file:///proj/a.scss''"
    "fileUri ?e ''/proj/b'' = ''file:///proj/b''"
    by code_simp+
  have distinct: "inj_on (fileUri ?e)
      (normalize ` (set [''/proj/b.scss'', ''/proj/a.scss''] \<union> allImportTargets ?e))"
    by (simp add: targets normal uris)
  have asked: "identifierUnderCursor ?e aDocument 23 = Some ?color"
    by code_simp
  have only: "\<forall>(k, table) \<in> set (storage_entries scannedStorage).
      k \<noteq> fileUri ?e (normalize ''/proj/b.scss'') \<longrightarrow> matchingEntries ?color table = []"
    by code_simp
  have uri: "fileUri ?e (normalize ''/proj/b.scss'') = ''file:///proj/b.scss''"
    by code_simp
  note claim = scanScssFiles_removes_missing
    [of "''/proj/b.scss''" ?e sampleSettings scannedStorage _ aDocument 23 ?color]
  have one: "storage_get (scan_storage (scanScssFiles ?e sampleSettings scannedStorage
      [''/proj/b.scss'', ''/proj/a.scss''])) (fileUri ?e (normalize ''/proj/b.scss'')) = None"
    using claim [of "[''/proj/b.scss'', ''/proj/a.scss'']", THEN conjunct1] visited missing distinct
    by simp
  have two: "storage_get (scan_storage (scanScssFiles ?e sampleSettings scannedStorage
      [''/proj/b.scss''])) (fileUri ?e (normalize ''/proj/b.scss'')) = None"
    using claim [of "[]", THEN conjunct2, THEN conjunct1] missing by blast
  have three: "snd (goDefinition ?e aDocument 23
      (scan_storage (scanScssFiles ?e sampleSettings scannedStorage [''/proj/b.scss''])))
      = Inr None"
    using claim [of "[]", THEN conjunct2, THEN conjunct2] missing asked only by blast
  have earlier: "snd (goDefinition (sampleEnv ''/proj'' sampleFiles) aDocument 23 scannedStorage)
      = Inr (Some \<lparr>loc_uri = ''file:///proj/b.scss'',
                    loc_start = \<lparr>pos_line = 0, pos_character = 11\<rparr>,
                    loc_end = \<lparr>pos_line = 0, pos_character = 17\<rparr>\<rparr>)"
    by code_simp
  from missing before visited one two three earlier show ?thesis
    by (simp add: uri)
qed

section \<open>Claims about completion\<close>

text \<open>
  C7 (as amended). For a current document with no \<open>@import\<close> statement, whatever its
  \<open>@use\<close> statements, the variable items of \<open>doCompletion\<close> carry no label: they are the
  items that the label setting switched off gives, and so is the whole completion list
  when neither mixins nor functions are offered. Mixin and function items are labelled
  whether or not the document has imports: every item for a mixin or function of a
  document that is neither the current one nor among its imports has the label and a
  space before its path.
\<close>

theorem completion_implicit_label:
  "((case ast of None \<Rightarrow> True
     | Some children \<Rightarrow> \<not> list_ex (\<lambda>child. node_type child = Import) children) \<longrightarrow>
      createVariableCompletionItems e document ast symbols filepath documentImports settings =
      createVariableCompletionItems e document ast symbols filepath documentImports
        (settings\<lparr>implicitlyLabel := None\<rparr>))
   \<and> (\<not> list_ex (\<lambda>child. node_type child = Import) (env_rootChildren e document)
       \<and> \<not> (suggestMixins settings \<and> ctx_mixin ctx)
       \<and> \<not> (suggestFunctions settings \<and> ctx_function ctx) \<longrightarrow>
      doCompletion e ctx uses document offset settings st =
      doCompletion e ctx uses document offset (settings\<lparr>implicitlyLabel := None\<rparr>) st)
   \<and> (isImplicitly (sym_document symbol) filepath documentImports
       \<and> implicitlyLabel settings = Some label \<and> label \<noteq> [] \<longrightarrow>
      map item_detail (createMixinCompletionItems e [symbol] filepath documentImports settings) =
        map (\<lambda>mixin. label @ '' '' @ env_getDocumentPath e filepath (sym_filepath symbol))
          (sym_mixins symbol)
      \<and> map item_detail (createFunctionCompletionItems e [symbol] filepath documentImports settings) =
        map (\<lambda>func. label @ '' '' @ env_getDocumentPath e filepath (sym_filepath symbol))
          (sym_functions symbol))"
proof (intro conjI impI)
  assume "case ast of None \<Rightarrow> True
     | Some children \<Rightarrow> \<not> list_ex (\<lambda>child. node_type child = Import) children"
  then show "createVariableCompletionItems e document ast symbols filepath documentImports settings =
      createVariableCompletionItems e document ast symbols filepath documentImports
        (settings\<lparr>implicitlyLabel := None\<rparr>)"
    by (rule createVariableCompletionItems_no_import)
next
  assume "\<not> list_ex (\<lambda>child. node_type child = Import) (env_rootChildren e document)
       \<and> \<not> (suggestMixins settings \<and> ctx_mixin ctx)
       \<and> \<not> (suggestFunctions settings \<and> ctx_function ctx)"
  then show "doCompletion e ctx uses document offset settings st =
      doCompletion e ctx uses document offset (settings\<lparr>implicitlyLabel := None\<rparr>) st"
    by (intro doCompletion_variables_unlabelled) blast+
next
  assume a: "isImplicitly (sym_document symbol) filepath documentImports
       \<and> implicitlyLabel settings = Some label \<and> label \<noteq> []"
  then show "map item_detail (createMixinCompletionItems e [symbol] filepath documentImports settings) =
        map (\<lambda>mixin. label @ '' '' @ env_getDocumentPath e filepath (sym_filepath symbol))
          (sym_mixins symbol)"
    by (intro createMixinCompletionItems_labelled) blast+
  from a show "map item_detail (createFunctionCompletionItems e [symbol] filepath documentImports settings) =
        map (\<lambda>func. label @ '' '' @ env_getDocumentPath e filepath (sym_filepath symbol))
          (sym_functions symbol)"
    by (intro createFunctionCompletionItems_labelled) blast+
qed

theorem completion_implicit_label_witness:
  "\<not> list_ex (\<lambda>child. node_type child = Import)
       (env_rootChildren (sampleEnv ''/proj'' sampleFiles) cDocument)
   \<and> map item_detail (snd (doCompletion (sampleEnv ''/proj'' sampleFiles) variableContext []
        cDocument 0 sampleSettings scannedStorage)) = [''/proj/b'']
   \<and> doCompletion (sampleEnv ''/proj'' sampleFiles) variableContext [] cDocument 0
        sampleSettings scannedStorage =
      doCompletion (sampleEnv ''/proj'' sampleFiles) variableContext [] cDocument 0
        (sampleSettings\<lparr>implicitlyLabel := None\<rparr>) scannedStorage
   \<and> isImplicitly (sym_document (the (storage_get scannedStorage ''file:///proj/b.scss'')))
        ''/proj/c.scss'' []
   \<and> map item_detail (createMixinCompletionItems (sampleEnv ''/proj'' sampleFiles)
        [the (storage_get scannedStorage ''file:///proj/b.scss'')] ''/proj/c.scss'' []
        sampleSettings) = [''(implicitly) /proj/b.scss'']"
proof -
  let ?e = "sampleEnv ''/proj'' sampleFiles"
  let ?tableB = "the (storage_get scannedStorage ''file:///proj/b.scss'')"
  have noImport: "\<not> list_ex (\<lambda>child. node_type child = Import) (env_rootChildren ?e cDocument)
       \<and> \<not> (suggestMixins sampleSettings \<and> ctx_mixin variableContext)
       \<and> \<not> (suggestFunctions sampleSettings \<and> ctx_function variableContext)"
    by code_simp
  have details: "map item_detail (snd (doCompletion ?e variableContext [] cDocument 0
      sampleSettings scannedStorage)) = [''/proj/b'']"
    by code_simp
  have implicit: "isImplicitly (sym_document ?tableB) ''/proj/c.scss'' []
      \<and> implicitlyLabel sampleSettings = Some ''(implicitly)'' \<and> ''(implicitly)'' \<noteq> []"
    by code_simp
  have path: "env_getDocumentPath ?e ''/proj/c.scss'' (sym_filepath ?tableB) = ''/proj/b.scss''
      \<and> sym_mixins ?tableB = [boxMixin]"
    by code_simp
  note claim = completion_implicit_label
    [where e = ?e and document = cDocument and settings = sampleSettings
       and ctx = variableContext and uses = "[]" and offset = 0 and st = scannedStorage
       and symbol = ?tableB and filepath = "''/proj/c.scss''" and documentImports = "[]"
       and label = "''(implicitly)''"]
  have same: "doCompletion ?e variableContext [] cDocument 0 sampleSettings scannedStorage =
      doCompletion ?e variableContext [] cDocument 0 (sampleSettings\<lparr>implicitlyLabel := None\<rparr>)
        scannedStorage"
    using claim [THEN conjunct2, THEN conjunct1] noImport by blast
  have labelled: "map item_detail (createMixinCompletionItems ?e [?tableB] ''/proj/c.scss'' []
      sampleSettings) =
      map (\<lambda>mixin. ''(implicitly)'' @ '' '' @ env_getDocumentPath ?e ''/proj/c.scss''
             (sym_filepath ?tableB)) (sym_mixins ?tableB)"
    using claim [THEN conjunct2, THEN conjunct2] implicit by blast
  from noImport details same implicit labelled path show ?thesis by simp
qed

text \<open>
  The claim as first stated has mixin and function items unlabelled too. The document
  \<open>c.scss\<close> has neither \<open>@use\<close> nor \<open>@import\<close>; the mixin \<open>box\<close> of its neighbour
  \<open>b.scss\<close> is offered with the label in its detail.
\<close>

theorem completion_mixin_label_counterexample:
  "env_rootChildren (sampleEnv ''/proj'' sampleFiles) cDocument = []
   \<and> sym_imports (parseDocument (sampleEnv ''/proj'' sampleFiles) cDocument) = []
   \<and> implicitlyLabel sampleSettings = Some ''(implicitly)''
   \<and> map (\<lambda>item. (item_label item, item_detail item))
        (snd (doCompletion (sampleEnv ''/proj'' sampleFiles) mixinContext [] cDocument 0
               sampleSettings scannedStorage))
      = [(''box'', ''(implicitly) /proj/b.scss'')]"
  by code_simp

end
